theory Spec2Isabelle
  imports Main "HOL-Library.Multiset" "HOL-Library.AList" "HOL-Library.Char_ord"
    "HOL-Library.List_Lexorder"
begin

section \<open>Python values and exceptions\<close>

text \<open>
  The exceptions the modelled functions can raise. A function that can raise returns
  \<open>error + 'a\<close>, with \<open>Inl\<close> for the exception.
\<close>

datatype error = KeyError | NameError | ValueError | TypeError | IndexError

text \<open>
  An argument that is annotated \<open>str\<close> but checked with \<open>isinstance(code, str)\<close>: the
  values a pandas column of codes holds are strings, \<open>None\<close>, numbers and the float NaN.
\<close>

datatype pyval = PyStr string | PyNone | PyInt int | PyNaN

section \<open>Code normalization (\<open>src/process/icd_normalize.py\<close>, \<open>scripts/convert_mimic_to_events.py\<close>)\<close>

text \<open>
  A \<open>char\<close> stands for the Unicode code point of the same number, so a \<open>string\<close> is a
  Python \<open>str\<close> over the code points U+0000 to U+00FF.

  \<open>str.strip()\<close> removes leading and trailing white space; the code points below U+0100
  for which \<open>str.isspace\<close> holds are 9 to 13, 28 to 32, 133 and 160.
\<close>

definition isspace :: "char \<Rightarrow> bool" where
  "isspace c = (let n = (of_char c :: nat) in
     (9 \<le> n \<and> n \<le> 13) \<or> (28 \<le> n \<and> n \<le> 32) \<or> n = 133 \<or> n = 160)"

definition strip :: "string \<Rightarrow> string" where
  "strip s = rev (dropWhile isspace (rev (dropWhile isspace s)))"

text \<open>
  \<open>str.upper()\<close> maps each code point to its full upper-case form: \<open>a\<close> to \<open>z\<close> and the
  Latin-1 small letters (224 to 254 without the division sign 247) move down by 32, the
  sharp s (223) becomes the two letters \<open>SS\<close>. The upper-case forms of the micro sign
  (181) and of y with diaeresis (255) lie beyond U+00FF; they are left in place here,
  which is a code point outside \<open>A-Za-z0-9.\<close> in either case.
\<close>

definition upper_char :: "char \<Rightarrow> string" where
  "upper_char c = (let n = (of_char c :: nat) in
     if 97 \<le> n \<and> n \<le> 122 then [char_of (n - 32)]
     else if n = 223 then ''SS''
     else if (224 \<le> n \<and> n \<le> 246) \<or> (248 \<le> n \<and> n \<le> 254) then [char_of (n - 32)]
     else [c])"

definition upper :: "string \<Rightarrow> string" where
  "upper s = concat (map upper_char s)"

text \<open>\<open>s.replace(old, "")\<close> for a one-character \<open>old\<close>.\<close>

definition remove_char :: "char \<Rightarrow> string \<Rightarrow> string" where
  "remove_char x s = filter (\<lambda>c. c \<noteq> x) s"

text \<open>The character classes \<open>[A-Z0-9\.]\<close> and \<open>[A-Za-z0-9\.]\<close> of the two regular expressions.\<close>

definition in_AZ09dot :: "char \<Rightarrow> bool" where
  "in_AZ09dot c = (let n = (of_char c :: nat) in
     (65 \<le> n \<and> n \<le> 90) \<or> (48 \<le> n \<and> n \<le> 57) \<or> n = 46)"

definition in_AZaz09dot :: "char \<Rightarrow> bool" where
  "in_AZaz09dot c = (let n = (of_char c :: nat) in
     (65 \<le> n \<and> n \<le> 90) \<or> (97 \<le> n \<and> n \<le> 122) \<or> (48 \<le> n \<and> n \<le> 57) \<or> n = 46)"

text \<open>
  \<open>normalize_icd(code, system, dotless)\<close>; \<open>system\<close> is accepted and never read.
\<close>

definition normalize_icd :: "pyval \<Rightarrow> string \<Rightarrow> bool \<Rightarrow> string" where
  "normalize_icd code system dotless =
     (case code of
        PyStr s \<Rightarrow>
          (let c = remove_char CHR '' '' (upper (strip s));
               c = filter in_AZ09dot c
           in if dotless then remove_char CHR ''.'' c else c)
      | _ \<Rightarrow> '''')"

text \<open>\<open>norm_code(code, dotless)\<close> of the MIMIC conversion script.\<close>

definition norm_code :: "pyval \<Rightarrow> bool \<Rightarrow> string" where
  "norm_code code dotless =
     (case code of
        PyStr s \<Rightarrow>
          (let c = filter in_AZaz09dot (upper (strip s))
           in if dotless then remove_char CHR ''.'' c else c)
      | _ \<Rightarrow> '''')"

section \<open>The event table and the label vocabulary (\<open>src/process/vocab.py\<close>)\<close>

text \<open>
  A row of the event table the two builders read: the columns \<open>patient_id\<close>,
  \<open>visit_date\<close> and \<open>code_norm\<close>. A missing code (NaN or \<open>None\<close>) is \<open>None\<close>.
\<close>

record event =
  patient_id :: string
  visit_date :: string
  code_norm :: "string option"

text \<open>
  A Python \<open>dict\<close> from codes to indices, in insertion order. Looking a key up reads its
  first binding, \<open>len\<close> counts the distinct keys, and storing a value under a key
  (\<^const>\<open>AList.update\<close>) replaces the binding in place or appends a new one.
\<close>

type_synonym label_dict = "(string \<times> int) list"

definition dict_get :: "label_dict \<Rightarrow> string \<Rightarrow> int option" where
  "dict_get d c = map_of d c"

definition dict_keys :: "label_dict \<Rightarrow> string list" where
  "dict_keys d = remdups (map fst d)"

definition dict_len :: "label_dict \<Rightarrow> nat" where
  "dict_len d = length (dict_keys d)"

text \<open>The codes of a column, without the missing ones (\<open>dropna\<close>).\<close>

fun dropna :: "string option list \<Rightarrow> string list" where
  "dropna [] = []"
| "dropna (None # xs) = dropna xs"
| "dropna (Some c # xs) = c # dropna xs"

text \<open>\<open>Series.unique()\<close>: the distinct values in order of first appearance.\<close>

definition unique :: "'a list \<Rightarrow> 'a list" where
  "unique xs = rev (remdups (rev xs))"

text \<open>
  \<open>groupby(["code_norm"])["patient_id"].nunique()\<close>: one entry per code that occurs,
  in ascending order of the code, rows with a missing code left out, each with the
  number of distinct patients that have an event with the code.
\<close>

definition nunique_patients :: "event list \<Rightarrow> string \<Rightarrow> nat" where
  "nunique_patients df_events c =
     length (unique (map patient_id (filter (\<lambda>e. code_norm e = Some c) df_events)))"

definition groupby_code_nunique :: "event list \<Rightarrow> (string \<times> nat) list" where
  "groupby_code_nunique df_events =
     map (\<lambda>c. (c, nunique_patients df_events c))
       (sort (unique (dropna (map code_norm df_events))))"

text \<open>
  \<open>sort_values(ascending=False)\<close>, by descending count. Codes with the same count stay
  in their order here; pandas' default sort may order them otherwise.
\<close>

definition sort_values_desc :: "(string \<times> nat) list \<Rightarrow> (string \<times> nat) list" where
  "sort_values_desc grp = sort_key (\<lambda>(c, n). - int n) grp"

text \<open>\<open>head(n)\<close> is \<open>iloc[:n]\<close>: a negative \<open>n\<close> drops the last \<open>-n\<close> entries.\<close>

definition head :: "int \<Rightarrow> 'a list \<Rightarrow> 'a list" where
  "head n xs = (if 0 \<le> n then take (nat n) xs else take (nat (int (length xs) + n)) xs)"

text \<open>
  Lines 21 to 24 of \<open>build_label_vocab\<close>: the series \<open>grp\<close> of codes and patient counts
  after the sort, the prevalence filter and the optional \<open>head(top_k)\<close>.
\<close>

definition grp :: "event list \<Rightarrow> int \<Rightarrow> int option \<Rightarrow> (string \<times> nat) list" where
  "grp df_events min_patients top_k =
     (let grp = sort_values_desc (groupby_code_nunique df_events);
          grp = filter (\<lambda>(c, n). int n \<ge> min_patients) grp
      in (case top_k of None \<Rightarrow> grp | Some k \<Rightarrow> head k grp))"

text \<open>
  \<open>build_label_vocab(df_events, min_patients, top_k)\<close>, with \<open>out_json\<close> left at \<open>None\<close>
  (writing the JSON file does not change the returned dict): the dict comprehension
  over \<open>enumerate(grp.index.tolist())\<close>.
\<close>

definition build_label_vocab :: "event list \<Rightarrow> int \<Rightarrow> int option \<Rightarrow> label_dict" where
  "build_label_vocab df_events min_patients top_k =
     fold (\<lambda>(i, code) vocab. AList.update code (int i) vocab)
       (enumerate 0 (map fst (grp df_events min_patients top_k))) []"

section \<open>The sequence builder (\<open>src/process/sequence.py\<close>)\<close>

text \<open>
  The names \<open>train_until\<close> and \<open>val_until\<close> are read by \<open>build_yearly_sequences\<close> but are
  neither parameters nor assigned in its module: they are looked up among the module's
  globals when the split runs, and the lookup of an unbound name raises \<open>NameError\<close>.
\<close>

record globals =
  train_until :: "int option"
  val_until :: "int option"

text \<open>
  A row of the table after the first lines of the function: the event with its derived
  \<open>year\<close> and the flag \<open>code_in_vocab\<close>. Only rows whose year is a number between
  \<open>min_year\<close> and \<open>max_year\<close> survive the filter, so \<open>year\<close> is an integer here.
\<close>

record dfrow = event +
  year :: int
  code_in_vocab :: bool

text \<open>An emitted example, one row of the result.\<close>

record example =
  ex_patient_id :: string
  target_year :: int
  hist_years :: "int list"
  hist_codes :: "string list list"
  target_multi_hot :: "int list"

text \<open>
  Lines 44 to 48. The date parser \<open>pd.to_datetime(..., errors="coerce").dt.year\<close> is the
  parameter \<open>to_year\<close>: \<open>None\<close> is a date that does not parse (NaT, year NaN), which
  fails both comparisons of the filter. \<open>isin(label_to_id)\<close> tests membership among the
  keys of the dict.
\<close>

definition isin :: "string option \<Rightarrow> label_dict \<Rightarrow> bool" where
  "isin code label_to_id =
     (case code of None \<Rightarrow> False | Some c \<Rightarrow> c \<in> set (dict_keys label_to_id))"

definition derive_df ::
  "(string \<Rightarrow> int option) \<Rightarrow> event list \<Rightarrow> label_dict \<Rightarrow> int \<Rightarrow> int \<Rightarrow> dfrow list" where
  "derive_df to_year df_events label_to_id min_year max_year =
     concat (map (\<lambda>e.
       (case to_year (visit_date e) of
          None \<Rightarrow> []
        | Some y \<Rightarrow>
            if y \<ge> min_year \<and> y \<le> max_year then
              [\<lparr>patient_id = patient_id e, visit_date = visit_date e, code_norm = code_norm e,
                year = y,
                code_in_vocab = isin (code_norm e) label_to_id\<rparr>]
            else [])) df_events)"

text \<open>
  \<open>.dt.year\<close> is an integer column only when every date parses; with one NaT in the
  column it is a column of floats, and stays one after the filter.
\<close>

definition year_is_float :: "(string \<Rightarrow> int option) \<Rightarrow> event list \<Rightarrow> bool" where
  "year_is_float to_year df_events = list_ex (\<lambda>e. to_year (visit_date e) = None) df_events"

text \<open>\<open>list(range(a, b))\<close> and \<open>min\<close> of a list, which raises on the empty list.\<close>

definition py_range :: "int \<Rightarrow> int \<Rightarrow> int list" where
  "py_range a b = [a..b - 1]"

definition py_min :: "int list \<Rightarrow> error + int" where
  "py_min xs = (if xs = [] then Inl ValueError else Inr (min_list xs))"

text \<open>\<open>xs[i] = v\<close>: an index from \<open>-len(xs)\<close> to \<open>len(xs) - 1\<close>, negative ones from the end.\<close>

definition wrap_index :: "nat \<Rightarrow> int \<Rightarrow> int" where
  "wrap_index n i = (if i < 0 then int n + i else i)"

definition list_setitem :: "'a list \<Rightarrow> int \<Rightarrow> 'a \<Rightarrow> error + 'a list" where
  "list_setitem xs i v =
     (let j = wrap_index (length xs) i
      in if 0 \<le> j \<and> j < int (length xs) then Inr (xs[nat j := v]) else Inl IndexError)"

text \<open>
  \<open>label_to_id[c]\<close> for a value of the column \<open>code_norm\<close>: a missing code is no key
  of a dict of strings.
\<close>

definition getitem :: "label_dict \<Rightarrow> string option \<Rightarrow> error + int" where
  "getitem label_to_id c =
     (case c of
        None \<Rightarrow> Inl KeyError
      | Some k \<Rightarrow> (case dict_get label_to_id k of None \<Rightarrow> Inl KeyError | Some i \<Rightarrow> Inr i))"

text \<open>Lines 69 and 70: \<open>for c in target_codes: multi_hot[label_to_id[c]] = 1\<close>.\<close>

fun set_targets ::
  "label_dict \<Rightarrow> int list \<Rightarrow> string option list \<Rightarrow> error + int list" where
  "set_targets label_to_id multi_hot [] = Inr multi_hot"
| "set_targets label_to_id multi_hot (c # cs) =
     (case getitem label_to_id c of
        Inl e \<Rightarrow> Inl e
      | Inr i \<Rightarrow>
          (case list_setitem multi_hot i 1 of
             Inl e \<Rightarrow> Inl e
           | Inr multi_hot' \<Rightarrow> set_targets label_to_id multi_hot' cs))"

text \<open>
  Lines 54 to 78, the body of the loop over the years \<open>Y\<close> of one patient's group \<open>g\<close>:
  \<open>None\<close> is \<open>continue\<close>, \<open>Some\<close> the row appended. With a float year column \<open>Y\<close> is a
  float and \<open>range\<close> raises \<open>TypeError\<close>.
\<close>

definition year_body ::
  "label_dict \<Rightarrow> int \<Rightarrow> int \<Rightarrow> bool \<Rightarrow> string \<Rightarrow> dfrow list \<Rightarrow> int \<Rightarrow> error + example option" where
  "year_body label_to_id history_years min_year float_years pid g Y =
     (if float_years then Inl TypeError
      else
        let hist_window = py_range (Y - history_years) Y in
        case py_min hist_window of
          Inl e \<Rightarrow> Inl e
        | Inr m \<Rightarrow>
            if m < min_year then Inr None
            else
              let hist = map (\<lambda>y. dropna (map code_norm (filter (\<lambda>r. year r = y) g)))
                           hist_window;
                  target_codes = unique (map code_norm
                                   (filter (\<lambda>r. year r = Y \<and> code_in_vocab r) g));
                  K = dict_len label_to_id
              in case set_targets label_to_id (replicate K 0) target_codes of
                   Inl e \<Rightarrow> Inl e
                 | Inr multi_hot \<Rightarrow>
                     Inr (Some \<lparr>ex_patient_id = pid, target_year = Y,
                                hist_years = hist_window, hist_codes = hist,
                                target_multi_hot = multi_hot\<rparr>))"

text \<open>The loop over the years of a patient; \<open>rows\<close> is the list being appended to.\<close>

fun years_loop ::
  "(int \<Rightarrow> error + example option) \<Rightarrow> int list \<Rightarrow> example list \<Rightarrow> error + example list" where
  "years_loop body [] rows = Inr rows"
| "years_loop body (Y # Ys) rows =
     (case body Y of
        Inl e \<Rightarrow> Inl e
      | Inr None \<Rightarrow> years_loop body Ys rows
      | Inr (Some r) \<Rightarrow> years_loop body Ys (rows @ [r]))"

text \<open>The loop over the patients, the groups of \<open>groupby("patient_id")\<close> in key order.\<close>

fun patients_loop ::
  "(string \<Rightarrow> example list \<Rightarrow> error + example list) \<Rightarrow> string list \<Rightarrow> example list
     \<Rightarrow> error + example list" where
  "patients_loop step [] rows = Inr rows"
| "patients_loop step (pid # pids) rows =
     (case step pid rows of
        Inl e \<Rightarrow> Inl e
      | Inr rows' \<Rightarrow> patients_loop step pids rows')"

text \<open>
  The group \<open>g\<close> of a patient in \<open>df.sort_values("year").groupby("patient_id")\<close>: the
  patient's rows, in the order of the sorted table. \<open>sort_values("year")\<close> is taken as a
  stable sort; rows of one year may come in another order in pandas.
\<close>

definition patient_group :: "dfrow list \<Rightarrow> string \<Rightarrow> dfrow list" where
  "patient_group df pid = filter (\<lambda>r. patient_id r = pid) (sort_key year df)"

text \<open>Lines 43 to 78: the list \<open>rows\<close> when the loops are done.\<close>

definition build_rows ::
  "(string \<Rightarrow> int option) \<Rightarrow> event list \<Rightarrow> label_dict \<Rightarrow> int \<Rightarrow> int \<Rightarrow> int
     \<Rightarrow> error + example list" where
  "build_rows to_year df_events label_to_id history_years min_year max_year =
     (let df = derive_df to_year df_events label_to_id min_year max_year;
          float_years = year_is_float to_year df_events
      in patients_loop
           (\<lambda>pid rows.
              let g = patient_group df pid;
                  years = sort (unique (map year g))
              in years_loop (year_body label_to_id history_years min_year float_years pid g)
                   years rows)
           (sort (unique (map patient_id df))) [])"

text \<open>
  \<open>build_yearly_sequences\<close>. \<open>pd.DataFrame(rows)\<close> of an empty list has no columns, so
  \<open>df_seqs["target_year"]\<close> raises \<open>KeyError\<close> then; the column is read before
  \<open>train_until\<close> is looked up. The three results are the rows of each mask, in order.
\<close>

definition build_yearly_sequences ::
  "globals \<Rightarrow> (string \<Rightarrow> int option) \<Rightarrow> event list \<Rightarrow> label_dict \<Rightarrow> int \<Rightarrow> int \<Rightarrow> int
     \<Rightarrow> error + (example list \<times> example list \<times> example list)" where
  "build_yearly_sequences G to_year df_events label_to_id history_years min_year max_year =
     (case build_rows to_year df_events label_to_id history_years min_year max_year of
        Inl e \<Rightarrow> Inl e
      | Inr rows \<Rightarrow>
          if rows = [] then Inl KeyError
          else
            (case train_until G of
               None \<Rightarrow> Inl NameError
             | Some tu \<Rightarrow>
                 (case val_until G of
                    None \<Rightarrow> Inl NameError
                  | Some vu \<Rightarrow>
                      Inr (filter (\<lambda>r. target_year r \<le> tu) rows,
                           filter (\<lambda>r. target_year r > tu \<and> target_year r \<le> vu) rows,
                           filter (\<lambda>r. target_year r > vu) rows))))"

section \<open>Example data\<close>

text \<open>
  The patients of scenarios B to D of the specification: patient P with code X in 2018,
  Y in 2019 and Z in 2020, and a patient Q with a code W outside the vocabulary, a
  missing code and the code Z. The vocabulary holds Z alone, the cutoffs are 2018 and
  2019.
\<close>

definition scenario_events :: "event list" where
  "scenario_events =
     [\<lparr>patient_id = ''P'', visit_date = ''2018-03-01'', code_norm = Some ''X''\<rparr>,
      \<lparr>patient_id = ''P'', visit_date = ''2019-03-01'', code_norm = Some ''Y''\<rparr>,
      \<lparr>patient_id = ''P'', visit_date = ''2020-03-01'', code_norm = Some ''Z''\<rparr>,
      \<lparr>patient_id = ''Q'', visit_date = ''2020-05-01'', code_norm = Some ''Z''\<rparr>,
      \<lparr>patient_id = ''Q'', visit_date = ''2019-05-01'', code_norm = Some ''W''\<rparr>,
      \<lparr>patient_id = ''Q'', visit_date = ''2019-06-01'', code_norm = None\<rparr>]"

definition scenario_to_year :: "string \<Rightarrow> int option" where
  "scenario_to_year =
     map_of [(''2018-03-01'', 2018), (''2019-03-01'', 2019), (''2020-03-01'', 2020),
             (''2020-05-01'', 2020), (''2019-05-01'', 2019), (''2019-06-01'', 2019)]"

definition scenario_vocab :: label_dict where
  "scenario_vocab = [(''Z'', 0)]"

definition scenario_globals :: globals where
  "scenario_globals = \<lparr>train_until = Some 2018, val_until = Some 2019\<rparr>"

definition scenario_rows :: "example list" where
  "scenario_rows =
     [\<lparr>ex_patient_id = ''P'', target_year = 2019, hist_years = [2017, 2018],
        hist_codes = [[], [''X'']], target_multi_hot = [0]\<rparr>,
      \<lparr>ex_patient_id = ''P'', target_year = 2020, hist_years = [2018, 2019],
        hist_codes = [[''X''], [''Y'']], target_multi_hot = [1]\<rparr>,
      \<lparr>ex_patient_id = ''Q'', target_year = 2019, hist_years = [2017, 2018],
        hist_codes = [[], []], target_multi_hot = [0]\<rparr>,
      \<lparr>ex_patient_id = ''Q'', target_year = 2020, hist_years = [2018, 2019],
        hist_codes = [[], [''W'']], target_multi_hot = [1]\<rparr>]"

section \<open>Properties of the vocabulary builder\<close>

lemma set_unique [simp]: "set (unique xs) = set xs"
  by (simp add: unique_def)

lemma distinct_unique [simp]: "distinct (unique xs)"
  by (simp add: unique_def)

lemma length_unique: "length (unique xs) = card (set xs)"
  by (simp add: unique_def length_remdups_card_conv)

lemma set_dropna [simp]: "set (dropna xs) = {c. Some c \<in> set xs}"
  by (induction xs rule: dropna.induct) auto

lemma update_fresh: "k \<notin> fst ` set d \<Longrightarrow> AList.update k v d = d @ [(k, v)]"
  by (induction d) auto

lemma fold_update_enumerate:
  "distinct xs \<Longrightarrow> set xs \<inter> fst ` set d = {} \<Longrightarrow>
   fold (\<lambda>(i, code) vocab. AList.update code (int i) vocab) (enumerate n xs) d
     = d @ zip xs (map int [n..<n + length xs])"
proof (induction xs arbitrary: n d)
  case Nil
  then show ?case by simp
next
  case (Cons x xs)
  have fresh: "x \<notin> fst ` set d" using Cons.prems by auto
  have d': "set xs \<inter> fst ` set (d @ [(x, int n)]) = {}"
    using Cons.prems by auto
  have \<open>distinct xs\<close> using Cons.prems by simp
  have up: "[n..<n + length (x # xs)] = n # [Suc n..<Suc n + length xs]"
    by (subst upt_conv_Cons) simp_all
  from Cons.IH [OF \<open>distinct xs\<close> d', of "Suc n"] show ?case
    by (simp only: up enumerate_simps fold_simps case_prod_conv update_fresh [OF fresh]
          list.map zip_Cons_Cons append_assoc append_Cons append_Nil)
qed

lemma nunique_patients_card:
  "nunique_patients df c = card {patient_id e |e. e \<in> set df \<and> code_norm e = Some c}"
proof -
  have "set (map patient_id (filter (\<lambda>e. code_norm e = Some c) df))
        = {patient_id e |e. e \<in> set df \<and> code_norm e = Some c}"
    by auto
  then show ?thesis
    by (simp only: nunique_patients_def length_unique)
qed

lemma groupby_code_nunique_distinct: "distinct (map fst (groupby_code_nunique df))"
  by (simp add: groupby_code_nunique_def comp_def)

lemma groupby_code_nunique_count:
  "(c, n) \<in> set (groupby_code_nunique df) \<Longrightarrow> n = nunique_patients df c"
  by (auto simp: groupby_code_nunique_def)

lemma distinct_map_sort_key:
  "distinct (map f (sort_key g xs)) = distinct (map f xs)"
  by (rule mset_eq_imp_distinct_iff) simp

lemma head_subset: "set (head n xs) \<subseteq> set xs"
  by (auto simp: head_def dest: in_set_takeD)

lemma distinct_map_head: "distinct (map f xs) \<Longrightarrow> distinct (map f (head n xs))"
  by (simp add: head_def take_map [symmetric])

lemma grp_distinct: "distinct (map fst (grp df mp tk))"
  by (auto simp: grp_def Let_def sort_values_desc_def distinct_map_filter distinct_map_sort_key
        groupby_code_nunique_distinct intro!: distinct_map_head split: option.splits)

lemma grp_count:
  assumes "(c, n) \<in> set (grp df mp tk)"
  shows "n = nunique_patients df c \<and> mp \<le> int n"
proof -
  have "(c, n) \<in> set (filter (\<lambda>(c, n). int n \<ge> mp) (sort_values_desc (groupby_code_nunique df)))"
    using assms head_subset by (fastforce simp: grp_def Let_def split: option.splits)
  then show ?thesis
    by (auto simp: sort_values_desc_def dest: groupby_code_nunique_count)
qed

lemma build_label_vocab_zip:
  "build_label_vocab df mp tk
     = zip (map fst (grp df mp tk)) (map int [0..<length (grp df mp tk)])"
proof -
  have "build_label_vocab df mp tk
        = fold (\<lambda>(i, code) vocab. AList.update code (int i) vocab)
            (enumerate 0 (map fst (grp df mp tk))) []"
    by (simp add: build_label_vocab_def)
  also have "\<dots> = [] @ zip (map fst (grp df mp tk))
                      (map int [0..<0 + length (map fst (grp df mp tk))])"
    by (rule fold_update_enumerate) (simp_all add: grp_distinct)
  finally show ?thesis by simp
qed

lemma zip_index_get:
  assumes "distinct cs"
  shows "map_of (zip cs (map int [0..<length cs])) c = Some i
         \<longleftrightarrow> (\<exists>j < length cs. cs ! j = c \<and> i = int j)"
proof
  assume "map_of (zip cs (map int [0..<length cs])) c = Some i"
  then have "(c, i) \<in> set (zip cs (map int [0..<length cs]))" by (rule map_of_SomeD)
  then show "\<exists>j < length cs. cs ! j = c \<and> i = int j"
    by (auto simp: in_set_zip)
next
  assume "\<exists>j < length cs. cs ! j = c \<and> i = int j"
  then obtain j where j: "j < length cs" "cs ! j = c" "i = int j" by blast
  have "map_of (zip cs (map int [0..<length cs])) (cs ! j) = Some (map int [0..<length cs] ! j)"
    by (rule map_of_zip_nth) (simp_all add: assms j)
  then show "map_of (zip cs (map int [0..<length cs])) c = Some i"
    using j by simp
qed

text \<open>
  C7. For every event table, every \<open>min_patients\<close> and every optional \<open>top_k\<close>, the dict
  returned by \<open>build_label_vocab\<close> binds each code once, is injective (two codes with
  the same index are the same code), has as indices exactly the integers from 0 up to,
  not including, its size K, and every code in it has a number of distinct patients of
  at least \<open>min_patients\<close>.
\<close>

theorem build_label_vocab_injective_dense:
  "let vocab = build_label_vocab df_events min_patients top_k; K = dict_len vocab in
     distinct (map fst vocab)
     \<and> (\<forall>c1 c2 i. dict_get vocab c1 = Some i \<and> dict_get vocab c2 = Some i \<longrightarrow> c1 = c2)
     \<and> {i. \<exists>c. dict_get vocab c = Some i} = {0..<int K}
     \<and> (\<forall>c \<in> set (dict_keys vocab).
           min_patients \<le> int (card {patient_id e |e. e \<in> set df_events \<and> code_norm e = Some c}))"
proof -
  define npat where
    "npat c = card {patient_id e |e. e \<in> set df_events \<and> code_norm e = Some c}" for c
  define cs where "cs = map fst (grp df_events min_patients top_k)"
  define vocab where "vocab = build_label_vocab df_events min_patients top_k"
  have dcs: "distinct cs" by (simp add: cs_def grp_distinct)
  have v: "vocab = zip cs (map int [0..<length cs])"
    by (simp add: vocab_def cs_def build_label_vocab_zip)
  have keys: "map fst vocab = cs" by (simp add: v)
  have K: "dict_len vocab = length cs"
    by (simp add: dict_len_def dict_keys_def keys dcs)
  have get: "dict_get vocab c = Some i \<longleftrightarrow> (\<exists>j < length cs. cs ! j = c \<and> i = int j)" for c i
    unfolding dict_get_def v by (rule zip_index_get [OF dcs])
  have inj: "\<forall>c1 c2 i. dict_get vocab c1 = Some i \<and> dict_get vocab c2 = Some i \<longrightarrow> c1 = c2"
    by (auto simp: get)
  have dense: "{i. \<exists>c. dict_get vocab c = Some i} = {0..<int (length cs)}"
  proof (rule set_eqI)
    fix i
    have "(\<exists>j < length cs. i = int j) \<longleftrightarrow> 0 \<le> i \<and> i < int (length cs)"
      by (metis nat_less_iff of_nat_0_le_iff of_nat_less_iff int_nat_eq)
    then show "i \<in> {i. \<exists>c. dict_get vocab c = Some i} \<longleftrightarrow> i \<in> {0..<int (length cs)}"
      by (auto simp: get)
  qed
  have prev: "\<forall>c \<in> set (dict_keys vocab). min_patients \<le> int (npat c)"
  proof
    fix c assume "c \<in> set (dict_keys vocab)"
    then have "c \<in> fst ` set (grp df_events min_patients top_k)"
      by (simp add: dict_keys_def keys cs_def)
    then obtain n where "(c, n) \<in> set (grp df_events min_patients top_k)" by auto
    from grp_count [OF this] show "min_patients \<le> int (npat c)"
      by (simp add: npat_def nunique_patients_card)
  qed
  show ?thesis
    using dcs inj dense prev
    by (simp add: Let_def vocab_def [symmetric] keys K npat_def)
qed

text \<open>
  Scenario A of the specification: code A with three patients, code B with one, and
  \<open>min_patients = 2\<close> give the vocabulary that maps A to 0.
\<close>

theorem build_label_vocab_injective_dense_witness:
  "build_label_vocab
     [\<lparr>patient_id = ''p1'', visit_date = ''2019-01-05'', code_norm = Some ''A''\<rparr>,
      \<lparr>patient_id = ''p2'', visit_date = ''2019-02-05'', code_norm = Some ''A''\<rparr>,
      \<lparr>patient_id = ''p2'', visit_date = ''2019-03-05'', code_norm = Some ''B''\<rparr>,
      \<lparr>patient_id = ''p3'', visit_date = ''2020-01-05'', code_norm = Some ''A''\<rparr>]
     2 None = [(''A'', 0)]
   \<and> (2::int) \<le> int (card {patient_id e |e. e \<in> set
     [\<lparr>patient_id = ''p1'', visit_date = ''2019-01-05'', code_norm = Some ''A''\<rparr>,
      \<lparr>patient_id = ''p2'', visit_date = ''2019-02-05'', code_norm = Some ''A''\<rparr>,
      \<lparr>patient_id = ''p2'', visit_date = ''2019-03-05'', code_norm = Some ''B''\<rparr>,
      \<lparr>patient_id = ''p3'', visit_date = ''2020-01-05'', code_norm = Some ''A''\<rparr>]
       \<and> code_norm e = Some ''A''})"
proof -
  let ?ev = "[\<lparr>patient_id = ''p1'', visit_date = ''2019-01-05'', code_norm = Some ''A''\<rparr>,
      \<lparr>patient_id = ''p2'', visit_date = ''2019-02-05'', code_norm = Some ''A''\<rparr>,
      \<lparr>patient_id = ''p2'', visit_date = ''2019-03-05'', code_norm = Some ''B''\<rparr>,
      \<lparr>patient_id = ''p3'', visit_date = ''2020-01-05'', code_norm = Some ''A''\<rparr>]"
  have v: "build_label_vocab ?ev 2 None = [(''A'', 0)]"
    by code_simp
  show ?thesis
    using build_label_vocab_injective_dense [of ?ev 2 None]
    by (simp add: v Let_def dict_keys_def)
qed

section \<open>Properties of the sequence builder\<close>

lemma years_loop_Inr:
  "years_loop body Ys rows = Inr out \<Longrightarrow>
     (\<forall>Y \<in> set Ys. \<exists>x. body Y = Inr x)
     \<and> set out = set rows \<union> {r. \<exists>Y \<in> set Ys. body Y = Inr (Some r)}"
proof (induction Ys arbitrary: rows)
  case Nil
  then show ?case by simp
next
  case (Cons Y Ys)
  show ?case
  proof (cases "body Y")
    case (Inl e)
    with Cons.prems show ?thesis by simp
  next
    case (Inr x)
    show ?thesis
    proof (cases x)
      case None
      with Inr Cons.prems have "years_loop body Ys rows = Inr out" by simp
      from Cons.IH [OF this] Inr None show ?thesis by auto
    next
      case (Some r)
      with Inr Cons.prems have "years_loop body Ys (rows @ [r]) = Inr out" by simp
      from Cons.IH [OF this] Inr Some show ?thesis by auto
    qed
  qed
qed

lemma years_loop_returns:
  "\<forall>Y \<in> set Ys. \<exists>x. body Y = Inr x \<Longrightarrow> \<exists>out. years_loop body Ys rows = Inr out"
proof (induction Ys arbitrary: rows)
  case Nil
  then show ?case by simp
next
  case (Cons Y Ys)
  then obtain x where x: "body Y = Inr x" by auto
  from Cons have "\<exists>out. years_loop body Ys rows' = Inr out" for rows' by simp
  with x show ?case by (cases x) auto
qed

lemma patients_loop_Inr:
  "patients_loop (\<lambda>pid rows. years_loop (b pid) (ys pid) rows) pids rows = Inr out \<Longrightarrow>
     (\<forall>p \<in> set pids. \<forall>Y \<in> set (ys p). \<exists>x. b p Y = Inr x)
     \<and> set out = set rows \<union> {r. \<exists>p \<in> set pids. \<exists>Y \<in> set (ys p). b p Y = Inr (Some r)}"
proof (induction pids arbitrary: rows)
  case Nil
  then show ?case by simp
next
  case (Cons p pids)
  from Cons.prems obtain rows' where
    1: "years_loop (b p) (ys p) rows = Inr rows'" and
    2: "patients_loop (\<lambda>pid rows. years_loop (b pid) (ys pid) rows) pids rows' = Inr out"
    by (auto split: sum.splits)
  from years_loop_Inr [OF 1] Cons.IH [OF 2] show ?case by auto
qed

lemma patients_loop_returns:
  "\<forall>p \<in> set pids. \<forall>Y \<in> set (ys p). \<exists>x. b p Y = Inr x \<Longrightarrow>
   \<exists>out. patients_loop (\<lambda>pid rows. years_loop (b pid) (ys pid) rows) pids rows = Inr out"
proof (induction pids arbitrary: rows)
  case Nil
  then show ?case by simp
next
  case (Cons p pids)
  then have "\<forall>Y \<in> set (ys p). \<exists>x. b p Y = Inr x" by simp
  from years_loop_returns [OF this] obtain rows' where
    "years_loop (b p) (ys p) rows = Inr rows'" by blast
  moreover from Cons have
    "\<exists>out. patients_loop (\<lambda>pid rows. years_loop (b pid) (ys pid) rows) pids rows' = Inr out"
    by simp
  ultimately show ?case by auto
qed

lemma derive_df_row:
  "row \<in> set (derive_df to_year df_events d mn mx) \<longleftrightarrow>
     (\<exists>e \<in> set df_events. \<exists>y. to_year (visit_date e) = Some y \<and> mn \<le> y \<and> y \<le> mx
        \<and> row = \<lparr>patient_id = patient_id e, visit_date = visit_date e,
                  code_norm = code_norm e, year = y,
                  code_in_vocab = isin (code_norm e) d\<rparr>)"
proof -
  let ?mk = "\<lambda>e y. \<lparr>patient_id = patient_id e, visit_date = visit_date e,
                  code_norm = code_norm e, year = y,
                  code_in_vocab = isin (code_norm e) d\<rparr>"
  have "row \<in> set (derive_df to_year df_events d mn mx) \<longleftrightarrow>
     (\<exists>e \<in> set df_events. row \<in> set (case to_year (visit_date e) of None \<Rightarrow> []
         | Some y \<Rightarrow> if y \<ge> mn \<and> y \<le> mx then [?mk e y] else []))"
    by (simp add: derive_df_def)
  also have "\<dots> \<longleftrightarrow> (\<exists>e \<in> set df_events. \<exists>y. to_year (visit_date e) = Some y
        \<and> mn \<le> y \<and> y \<le> mx \<and> row = ?mk e y)"
  proof (intro bex_cong refl)
    fix e
    show "row \<in> set (case to_year (visit_date e) of None \<Rightarrow> []
         | Some y \<Rightarrow> if y \<ge> mn \<and> y \<le> mx then [?mk e y] else [])
       \<longleftrightarrow> (\<exists>y. to_year (visit_date e) = Some y \<and> mn \<le> y \<and> y \<le> mx \<and> row = ?mk e y)"
      by (cases "to_year (visit_date e)") auto
  qed
  finally show ?thesis .
qed

lemma derive_df_year:
  "(\<exists>row \<in> set (derive_df to_year df_events d mn mx). patient_id row = p \<and> year row = Y) \<longleftrightarrow>
     (\<exists>e \<in> set df_events. patient_id e = p \<and> to_year (visit_date e) = Some Y)
       \<and> mn \<le> Y \<and> Y \<le> mx"
  by (force simp: derive_df_row)

lemma derive_df_code:
  "(\<exists>row \<in> set (derive_df to_year df_events d mn mx).
       patient_id row = p \<and> year row = y \<and> code_norm row = Some c) \<longleftrightarrow>
     (\<exists>e \<in> set df_events. patient_id e = p \<and> to_year (visit_date e) = Some y
        \<and> code_norm e = Some c) \<and> mn \<le> y \<and> y \<le> mx"
  by (force simp: derive_df_row)

lemma derive_df_target:
  "(\<exists>row \<in> set (derive_df to_year df_events d mn mx).
       patient_id row = p \<and> year row = y \<and> code_in_vocab row \<and> code_norm row = Some c) \<longleftrightarrow>
     (\<exists>e \<in> set df_events. patient_id e = p \<and> to_year (visit_date e) = Some y
        \<and> code_norm e = Some c) \<and> c \<in> set (dict_keys d) \<and> mn \<le> y \<and> y \<le> mx"
  by (force simp: derive_df_row isin_def)

lemma list_setitem_Inr:
  "list_setitem xs i v = Inr ys \<Longrightarrow>
     - int (length xs) \<le> i \<and> i < int (length xs)
     \<and> ys = xs[nat (wrap_index (length xs) i) := v]"
  by (auto simp: list_setitem_def wrap_index_def Let_def split: if_splits)

lemma set_targets_Inr:
  "set_targets d mh cs = Inr mh' \<Longrightarrow>
     length mh' = length mh
     \<and> (\<forall>c \<in> set cs. \<exists>k i. c = Some k \<and> dict_get d k = Some i
            \<and> - int (length mh) \<le> i \<and> i < int (length mh))
     \<and> (\<forall>j < length mh. mh' ! j =
           (if \<exists>k i. Some k \<in> set cs \<and> dict_get d k = Some i \<and> wrap_index (length mh) i = int j
            then 1 else mh ! j))"
proof (induction cs arbitrary: mh)
  case Nil
  then show ?case by simp
next
  case (Cons c cs)
  from Cons.prems obtain k i mh1 where
    c: "c = Some k" and
    i: "dict_get d k = Some i" and
    s: "list_setitem mh i 1 = Inr mh1" and
    t: "set_targets d mh1 cs = Inr mh'"
    by (auto simp: getitem_def split: option.splits sum.splits)
  let ?j = "wrap_index (length mh) i"
  from list_setitem_Inr [OF s] have
    bnd: "- int (length mh) \<le> i" "i < int (length mh)" and mh1: "mh1 = mh[nat ?j := 1]"
    by simp_all
  have j0: "0 \<le> ?j" using bnd by (simp add: wrap_index_def)
  have len1: "length mh1 = length mh" by (simp add: mh1)
  from Cons.IH [OF t] have
    len: "length mh' = length mh" and
    all: "\<forall>c \<in> set cs. \<exists>k i. c = Some k \<and> dict_get d k = Some i
            \<and> - int (length mh) \<le> i \<and> i < int (length mh)" and
    nth: "\<forall>j < length mh. mh' ! j =
           (if \<exists>k i. Some k \<in> set cs \<and> dict_get d k = Some i \<and> wrap_index (length mh) i = int j
            then 1 else mh1 ! j)"
    unfolding len1 by blast+
  have step: "mh1 ! j = (if ?j = int j then 1 else mh ! j)" if "j < length mh" for j
  proof (cases "?j = int j")
    case True
    then have "nat ?j = j" by simp
    with that show ?thesis by (simp add: mh1 True)
  next
    case False
    then have "nat ?j \<noteq> j" using j0 by linarith
    with False show ?thesis by (simp add: mh1)
  qed
  have "mh' ! j =
           (if \<exists>k i. Some k \<in> set (c # cs) \<and> dict_get d k = Some i
                 \<and> wrap_index (length mh) i = int j
            then 1 else mh ! j)" if "j < length mh" for j
    using nth [rule_format, OF that] step [OF that] i c by auto
  with len all i c bnd show ?case by auto
qed

lemma set_targets_returns:
  "\<forall>c \<in> set cs. \<exists>k i. c = Some k \<and> dict_get d k = Some i
       \<and> - int (length mh) \<le> i \<and> i < int (length mh)
   \<Longrightarrow> \<exists>mh'. set_targets d mh cs = Inr mh'"
proof (induction cs arbitrary: mh)
  case Nil
  then show ?case by simp
next
  case (Cons c cs)
  then obtain k i where i: "c = Some k" "dict_get d k = Some i"
    "- int (length mh) \<le> i" "i < int (length mh)"
    by auto
  let ?mh1 = "mh[nat (wrap_index (length mh) i) := 1]"
  have s: "list_setitem mh i 1 = Inr ?mh1"
    using i by (auto simp: list_setitem_def wrap_index_def Let_def)
  have "\<exists>mh'. set_targets d ?mh1 cs = Inr mh'"
    using Cons.prems by (intro Cons.IH) simp
  then show ?case using i s by (auto simp: getitem_def)
qed

lemma min_list_upto: "a \<le> b \<Longrightarrow> min_list [a..b] = a"
proof -
  assume ab: "a \<le> b"
  then have ne: "[a..b] \<noteq> []" by simp
  have "min_list [a..b] = Min (set [a..b])"
    by (rule min_list_Min [OF ne])
  also have "\<dots> = a" using ab by (intro Min_eqI) auto
  finally show ?thesis .
qed

lemma year_body_Inr:
  assumes "year_body d H mn fl p g Y = Inr x"
  shows "\<not> fl \<and> 1 \<le> H \<and>
    (case x of
       None \<Rightarrow> Y - H < mn
     | Some r \<Rightarrow> mn \<le> Y - H \<and> ex_patient_id r = p \<and> target_year r = Y
         \<and> hist_years r = [Y - H..Y - 1]
         \<and> hist_codes r = map (\<lambda>y. dropna (map code_norm (filter (\<lambda>r. year r = y) g)))
                            [Y - H..Y - 1]
         \<and> set_targets d (replicate (dict_len d) 0)
              (unique (map code_norm (filter (\<lambda>r. year r = Y \<and> code_in_vocab r) g)))
             = Inr (target_multi_hot r))"
proof -
  from assms have fl: "\<not> fl" by (auto simp: year_body_def)
  from assms fl have ne: "[Y - H..Y - 1] \<noteq> []"
    by (auto simp: year_body_def py_range_def py_min_def Let_def split: if_splits)
  then have H: "1 \<le> H" by simp
  then have m: "min_list [Y - H..Y - 1] = Y - H"
    by (intro min_list_upto) simp
  from assms fl ne m show ?thesis
    by (auto simp: year_body_def py_range_def py_min_def Let_def H
          split: if_splits sum.splits option.splits)
qed

lemma year_body_returns:
  assumes "\<not> fl" "1 \<le> H"
    and "\<forall>c \<in> set (dict_keys d). \<exists>i. dict_get d c = Some i \<and> - int (dict_len d) \<le> i \<and> i < int (dict_len d)"
    and "\<forall>r \<in> set g. code_in_vocab r \<longrightarrow> isin (code_norm r) d"
  shows "\<exists>x. year_body d H mn fl p g Y = Inr x"
proof -
  let ?tc = "unique (map code_norm (filter (\<lambda>r. year r = Y \<and> code_in_vocab r) g))"
  have "\<forall>c \<in> set ?tc. \<exists>k. c = Some k \<and> k \<in> set (dict_keys d)"
  proof
    fix c assume "c \<in> set ?tc"
    then obtain r where "r \<in> set g" "code_in_vocab r" "code_norm r = c" by auto
    with assms(4) have "isin c d" by metis
    then show "\<exists>k. c = Some k \<and> k \<in> set (dict_keys d)"
      by (cases c) (simp_all add: isin_def)
  qed
  then have "\<forall>c \<in> set ?tc. \<exists>k i. c = Some k \<and> dict_get d k = Some i
       \<and> - int (length (replicate (dict_len d) (0::int))) \<le> i
       \<and> i < int (length (replicate (dict_len d) (0::int)))"
    using assms(3) unfolding length_replicate by metis
  from set_targets_returns [OF this] obtain mh where
    "set_targets d (replicate (dict_len d) 0) ?tc = Inr mh" by blast
  moreover have "[Y - H..Y - 1] \<noteq> []" using assms(2) by simp
  ultimately show ?thesis
    using assms(1) by (simp add: year_body_def py_range_def py_min_def Let_def)
qed

lemma set_patient_group [simp]:
  "set (patient_group df p) = {r \<in> set df. patient_id r = p}"
  by (auto simp: patient_group_def)

lemma group_year:
  "Y \<in> year ` set (patient_group (derive_df to_year df_events d mn mx) p) \<longleftrightarrow>
     (\<exists>e \<in> set df_events. patient_id e = p \<and> to_year (visit_date e) = Some Y)
       \<and> mn \<le> Y \<and> Y \<le> mx"
  using derive_df_year [of to_year df_events d mn mx p Y] by auto

lemma group_codes:
  "set (dropna (map code_norm
      (filter (\<lambda>r. year r = y) (patient_group (derive_df to_year df_events d mn mx) p))))
   = {c. (\<exists>e \<in> set df_events. patient_id e = p \<and> to_year (visit_date e) = Some y
            \<and> code_norm e = Some c) \<and> mn \<le> y \<and> y \<le> mx}"
  using derive_df_code [of to_year df_events d mn mx p y] by (auto simp: image_iff) metis+

lemma group_target_codes:
  "Some c \<in> set (unique (map code_norm
      (filter (\<lambda>r. year r = y \<and> code_in_vocab r)
         (patient_group (derive_df to_year df_events d mn mx) p))))
   \<longleftrightarrow> (\<exists>e \<in> set df_events. patient_id e = p \<and> to_year (visit_date e) = Some y
            \<and> code_norm e = Some c) \<and> c \<in> set (dict_keys d) \<and> mn \<le> y \<and> y \<le> mx"
  using derive_df_target [of to_year df_events d mn mx p y c] by (auto simp: image_iff)

lemma build_rows_Inr:
  assumes "build_rows to_year df_events d H mn mx = Inr rows"
  shows "(\<forall>p Y. (\<exists>e \<in> set df_events. patient_id e = p \<and> to_year (visit_date e) = Some Y)
             \<and> mn \<le> Y \<and> Y \<le> mx \<longrightarrow>
           (\<exists>x. year_body d H mn (year_is_float to_year df_events) p
                  (patient_group (derive_df to_year df_events d mn mx) p) Y = Inr x))
       \<and> set rows = {r. \<exists>p Y. (\<exists>e \<in> set df_events. patient_id e = p \<and> to_year (visit_date e) = Some Y)
             \<and> mn \<le> Y \<and> Y \<le> mx
             \<and> year_body d H mn (year_is_float to_year df_events) p
                  (patient_group (derive_df to_year df_events d mn mx) p) Y = Inr (Some r)}"
proof -
  define df where "df = derive_df to_year df_events d mn mx"
  define b where "b = (\<lambda>p. year_body d H mn (year_is_float to_year df_events) p (patient_group df p))"
  define ys where "ys = (\<lambda>p. sort (unique (map year (patient_group df p))))"
  define pids where "pids = sort (unique (map patient_id df))"
  have run: "patients_loop (\<lambda>pid rows. years_loop (b pid) (ys pid) rows) pids [] = Inr rows"
    using assms by (simp add: build_rows_def Let_def df_def b_def ys_def pids_def)
  have cand: "p \<in> set pids \<and> Y \<in> set (ys p) \<longleftrightarrow>
      (\<exists>e \<in> set df_events. patient_id e = p \<and> to_year (visit_date e) = Some Y)
        \<and> mn \<le> Y \<and> Y \<le> mx" for p Y
  proof -
    have "p \<in> set pids \<and> Y \<in> set (ys p) \<longleftrightarrow> Y \<in> year ` set (patient_group df p)"
      by (auto simp: pids_def ys_def)
    then show ?thesis by (simp only: df_def group_year)
  qed
  from patients_loop_Inr [OF run] have
    ok: "\<forall>p \<in> set pids. \<forall>Y \<in> set (ys p). \<exists>x. b p Y = Inr x" and
    out: "set rows = {r. \<exists>p \<in> set pids. \<exists>Y \<in> set (ys p). b p Y = Inr (Some r)}"
    by simp_all
  have 1: "\<forall>p Y. (\<exists>e \<in> set df_events. patient_id e = p \<and> to_year (visit_date e) = Some Y)
             \<and> mn \<le> Y \<and> Y \<le> mx \<longrightarrow> (\<exists>x. b p Y = Inr x)"
    using ok cand by blast
  have 2: "set rows = {r. \<exists>p Y. (\<exists>e \<in> set df_events. patient_id e = p \<and> to_year (visit_date e) = Some Y)
             \<and> mn \<le> Y \<and> Y \<le> mx \<and> b p Y = Inr (Some r)}"
    unfolding out using cand by blast
  from 1 2 show ?thesis unfolding b_def df_def by blast
qed

lemma build_rows_returns:
  assumes "1 \<le> H" "\<not> year_is_float to_year df_events"
    and "\<forall>c \<in> set (dict_keys d). \<exists>i. dict_get d c = Some i \<and> - int (dict_len d) \<le> i \<and> i < int (dict_len d)"
  shows "\<exists>rows. build_rows to_year df_events d H mn mx = Inr rows"
proof -
  define df where "df = derive_df to_year df_events d mn mx"
  have "\<forall>r \<in> set (patient_group df p). code_in_vocab r \<longrightarrow> isin (code_norm r) d" for p
    by (auto simp: df_def derive_df_row)
  then have "\<exists>x. year_body d H mn (year_is_float to_year df_events) p (patient_group df p) Y = Inr x"
    for p Y
    using assms by (intro year_body_returns) auto
  then have "\<exists>out. patients_loop (\<lambda>pid rows. years_loop
        (year_body d H mn (year_is_float to_year df_events) pid (patient_group df pid))
        (sort (unique (map year (patient_group df pid)))) rows)
      (sort (unique (map patient_id df))) [] = Inr out"
    by (intro patients_loop_returns) blast
  then show ?thesis
    by (simp add: build_rows_def Let_def df_def)
qed

lemma build_rows_example:
  assumes "build_rows to_year df_events d H mn mx = Inr rows" and "r \<in> set rows"
  shows "(\<exists>e \<in> set df_events. patient_id e = ex_patient_id r
            \<and> to_year (visit_date e) = Some (target_year r))
     \<and> mn \<le> target_year r \<and> target_year r \<le> mx
     \<and> 1 \<le> H \<and> mn \<le> target_year r - H
     \<and> hist_years r = [target_year r - H..target_year r - 1]
     \<and> hist_codes r = map (\<lambda>y. dropna (map code_norm (filter (\<lambda>r. year r = y)
           (patient_group (derive_df to_year df_events d mn mx) (ex_patient_id r)))))
           [target_year r - H..target_year r - 1]
     \<and> length (target_multi_hot r) = dict_len d
     \<and> (\<forall>j < dict_len d. target_multi_hot r ! j =
           (if \<exists>c i. (\<exists>e \<in> set df_events. patient_id e = ex_patient_id r
                         \<and> to_year (visit_date e) = Some (target_year r)
                         \<and> code_norm e = Some c)
                  \<and> dict_get d c = Some i \<and> wrap_index (dict_len d) i = int j
            then 1 else 0))
     \<and> (\<forall>c i. (\<exists>e \<in> set df_events. patient_id e = ex_patient_id r
                         \<and> to_year (visit_date e) = Some (target_year r)
                         \<and> code_norm e = Some c)
                  \<and> dict_get d c = Some i \<longrightarrow> - int (dict_len d) \<le> i \<and> i < int (dict_len d))"
proof -
  let ?G = "patient_group (derive_df to_year df_events d mn mx)"
  from build_rows_Inr [OF assms(1)] assms(2) obtain p Y where
    c: "\<exists>e \<in> set df_events. patient_id e = p \<and> to_year (visit_date e) = Some Y"
      "mn \<le> Y" "Y \<le> mx" and
    b: "year_body d H mn (year_is_float to_year df_events) p (?G p) Y = Inr (Some r)"
    by auto
  let ?tc = "unique (map code_norm (filter (\<lambda>r. year r = Y \<and> code_in_vocab r) (?G p)))"
  from year_body_Inr [OF b] have
    f: "1 \<le> H" "mn \<le> Y - H" "ex_patient_id r = p" "target_year r = Y"
      "hist_years r = [Y - H..Y - 1]"
      "hist_codes r = map (\<lambda>y. dropna (map code_norm (filter (\<lambda>r. year r = y) (?G p))))
                            [Y - H..Y - 1]" and
    t: "set_targets d (replicate (dict_len d) 0) ?tc = Inr (target_multi_hot r)"
    by simp_all
  have tc: "Some c \<in> set ?tc \<longleftrightarrow>
      (\<exists>e \<in> set df_events. patient_id e = p \<and> to_year (visit_date e) = Some Y
            \<and> code_norm e = Some c) \<and> c \<in> set (dict_keys d)" for c
    using c(2,3) by (simp only: group_target_codes) simp
  have keys: "c \<in> set (dict_keys d)" if "dict_get d c = Some i" for c i
    using that by (auto simp: dict_get_def dict_keys_def dest: map_of_SomeD intro: rev_image_eqI)
  from set_targets_Inr [OF t, unfolded length_replicate] have
    len: "length (target_multi_hot r) = dict_len d" and
    rng: "\<forall>c \<in> set ?tc. \<exists>k i. c = Some k \<and> dict_get d k = Some i
            \<and> - int (dict_len d) \<le> i \<and> i < int (dict_len d)" and
    nth: "\<forall>j < dict_len d. target_multi_hot r ! j =
           (if \<exists>k i. Some k \<in> set ?tc \<and> dict_get d k = Some i
                 \<and> wrap_index (dict_len d) i = int j
            then 1 else replicate (dict_len d) 0 ! j)"
    by blast+
  have nth': "target_multi_hot r ! j =
           (if \<exists>c i. (\<exists>e \<in> set df_events. patient_id e = p \<and> to_year (visit_date e) = Some Y
                         \<and> code_norm e = Some c)
                  \<and> dict_get d c = Some i \<and> wrap_index (dict_len d) i = int j
            then 1 else 0)" if "j < dict_len d" for j
  proof -
    have eq: "(\<exists>k i. Some k \<in> set ?tc \<and> dict_get d k = Some i
                 \<and> wrap_index (dict_len d) i = int j)
      \<longleftrightarrow> (\<exists>c i. (\<exists>e \<in> set df_events. patient_id e = p \<and> to_year (visit_date e) = Some Y
                         \<and> code_norm e = Some c)
                  \<and> dict_get d c = Some i \<and> wrap_index (dict_len d) i = int j)"
      using tc keys by blast
    have z: "replicate (dict_len d) (0::int) ! j = 0" using that by simp
    from nth [rule_format, OF that] show ?thesis unfolding eq z .
  qed
  have rng': "- int (dict_len d) \<le> i \<and> i < int (dict_len d)"
    if "\<exists>e \<in> set df_events. patient_id e = p \<and> to_year (visit_date e) = Some Y
                         \<and> code_norm e = Some c" "dict_get d c = Some i" for c i
  proof -
    from that keys have "Some c \<in> set ?tc" unfolding tc by blast
    with rng that(2) show ?thesis by fastforce
  qed
  from c f len nth' rng' show ?thesis by (simp only: f(3,4)) blast
qed

lemma build_rows_emits:
  assumes "build_rows to_year df_events d H mn mx = Inr rows"
    and "\<exists>e \<in> set df_events. patient_id e = p \<and> to_year (visit_date e) = Some Y"
    and "mn \<le> Y" "Y \<le> mx" "mn \<le> Y - H"
  shows "\<exists>r \<in> set rows. ex_patient_id r = p \<and> target_year r = Y"
proof -
  let ?b = "year_body d H mn (year_is_float to_year df_events) p
                  (patient_group (derive_df to_year df_events d mn mx) p) Y"
  from build_rows_Inr [OF assms(1)] assms(2-4) obtain x where x: "?b = Inr x" by blast
  from year_body_Inr [OF x] assms(5) obtain r where
    r: "x = Some r" "ex_patient_id r = p" "target_year r = Y"
    by (cases x) auto
  from build_rows_Inr [OF assms(1)] assms(2-4) x r(1) have "r \<in> set rows" by blast
  with r show ?thesis by blast
qed

lemma build_yearly_sequences_Inr:
  assumes "build_yearly_sequences G to_year df_events d H mn mx = Inr (train, val, test)"
  shows "\<exists>rows tu vu. build_rows to_year df_events d H mn mx = Inr rows \<and> rows \<noteq> []
     \<and> train_until G = Some tu \<and> val_until G = Some vu
     \<and> train = filter (\<lambda>r. target_year r \<le> tu) rows
     \<and> val = filter (\<lambda>r. target_year r > tu \<and> target_year r \<le> vu) rows
     \<and> test = filter (\<lambda>r. target_year r > vu) rows
     \<and> set (train @ val @ test) = set rows"
proof -
  from assms obtain rows tu vu where
    a: "build_rows to_year df_events d H mn mx = Inr rows" "rows \<noteq> []"
      "train_until G = Some tu" "val_until G = Some vu"
      "train = filter (\<lambda>r. target_year r \<le> tu) rows"
      "val = filter (\<lambda>r. target_year r > tu \<and> target_year r \<le> vu) rows"
      "test = filter (\<lambda>r. target_year r > vu) rows"
    by (auto simp: build_yearly_sequences_def split: sum.splits if_splits option.splits)
  have "set (train @ val @ test) = set rows"
    unfolding a(5-7) by auto
  with a show ?thesis by blast
qed

text \<open>
  When the builder returns: a history length of at least one, a table in which every
  date parses, a dict whose indices fit the target vector, both cutoffs bound, and at
  least one candidate year with enough history.
\<close>

lemma build_yearly_sequences_returns:
  assumes "1 \<le> H" and "\<not> year_is_float to_year df_events"
    and "\<forall>c \<in> set (dict_keys d). \<exists>i. dict_get d c = Some i
           \<and> - int (dict_len d) \<le> i \<and> i < int (dict_len d)"
    and "train_until G = Some tu" and "val_until G = Some vu"
    and "\<exists>e \<in> set df_events. patient_id e = p \<and> to_year (visit_date e) = Some Y"
    and "mn \<le> Y" and "Y \<le> mx" and "mn \<le> Y - H"
  shows "\<exists>train val test.
    build_yearly_sequences G to_year df_events d H mn mx = Inr (train, val, test)"
proof -
  from build_rows_returns [OF assms(1-3)] obtain rows where
    rows: "build_rows to_year df_events d H mn mx = Inr rows" by blast
  from build_rows_emits [OF rows assms(6-9)] have "rows \<noteq> []" by auto
  with rows assms(4,5) show ?thesis
    by (simp add: build_yearly_sequences_def)
qed

subsection \<open>The history window\<close>

text \<open>
  C1. In a run that returns, for every patient and every candidate target year Y (a
  year from \<open>min_year\<close> to \<open>max_year\<close> in which the patient has an event), an example
  for the patient and Y is emitted if and only if \<open>Y - H \<ge> min_year\<close>, the boundary
  \<open>Y - H = min_year\<close> included; and the \<open>hist_years\<close> of every emitted example is the
  list from \<open>Y - H\<close> to \<open>Y - 1\<close>, strictly increasing, of length H, with no year
  below \<open>min_year\<close>.
\<close>

theorem window_check_and_contiguity:
  assumes "build_yearly_sequences G to_year df_events label_to_id H min_year max_year
             = Inr (train, val, test)"
  shows "(\<forall>p Y. (\<exists>e \<in> set df_events. patient_id e = p \<and> to_year (visit_date e) = Some Y)
              \<and> min_year \<le> Y \<and> Y \<le> max_year \<longrightarrow>
            ((\<exists>r \<in> set (train @ val @ test). ex_patient_id r = p \<and> target_year r = Y)
               \<longleftrightarrow> Y - H \<ge> min_year))
       \<and> (\<forall>r \<in> set (train @ val @ test).
            hist_years r = [target_year r - H..target_year r - 1]
            \<and> (\<forall>i < nat H. hist_years r ! i = target_year r - H + int i)
            \<and> sorted_wrt (<) (hist_years r)
            \<and> int (length (hist_years r)) = H
            \<and> (\<forall>y \<in> set (hist_years r). min_year \<le> y))"
proof -
  from build_yearly_sequences_Inr [OF assms] obtain rows where
    rows: "build_rows to_year df_events label_to_id H min_year max_year = Inr rows"
    and out: "set (train @ val @ test) = set rows"
    by blast
  have emit: "(\<exists>r \<in> set rows. ex_patient_id r = p \<and> target_year r = Y) \<longleftrightarrow> Y - H \<ge> min_year"
    if "\<exists>e \<in> set df_events. patient_id e = p \<and> to_year (visit_date e) = Some Y"
      "min_year \<le> Y" "Y \<le> max_year" for p Y
  proof
    assume "\<exists>r \<in> set rows. ex_patient_id r = p \<and> target_year r = Y"
    then obtain r where "r \<in> set rows" "target_year r = Y" by blast
    with build_rows_example [OF rows, of r] show "Y - H \<ge> min_year" by simp
  next
    assume "Y - H \<ge> min_year"
    with build_rows_emits [OF rows that] show "\<exists>r \<in> set rows. ex_patient_id r = p \<and> target_year r = Y" .
  qed
  have win: "hist_years r = [target_year r - H..target_year r - 1]
            \<and> (\<forall>i < nat H. hist_years r ! i = target_year r - H + int i)
            \<and> sorted_wrt (<) (hist_years r)
            \<and> int (length (hist_years r)) = H
            \<and> (\<forall>y \<in> set (hist_years r). min_year \<le> y)" if "r \<in> set rows" for r
  proof -
    from build_rows_example [OF rows that] have
      h: "hist_years r = [target_year r - H..target_year r - 1]" and
      H: "1 \<le> H" and m: "min_year \<le> target_year r - H"
      by simp_all
    have "sorted_wrt (<) [target_year r - H..target_year r - 1]"
      by (simp add: strict_sorted_iff)
    moreover have "\<forall>i < nat H. [target_year r - H..target_year r - 1] ! i = target_year r - H + int i"
      by (auto intro!: nth_upto)
    ultimately show ?thesis using H m by (simp add: h)
  qed
  from emit win show ?thesis unfolding out by blast
qed

text \<open>
  Scenario C of the specification: with \<open>H = 2\<close> and \<open>min_year = 2017\<close> the target year
  2019 of patient P is emitted, with the window 2017, 2018; the target year 2018 is not.
\<close>

theorem window_check_and_contiguity_witness:
  "build_yearly_sequences scenario_globals scenario_to_year scenario_events scenario_vocab
       2 2017 2020
     = Inr ([], [scenario_rows ! 0, scenario_rows ! 2], [scenario_rows ! 1, scenario_rows ! 3])
   \<and> (\<exists>r \<in> set ([] @ [scenario_rows ! 0, scenario_rows ! 2]
                     @ [scenario_rows ! 1, scenario_rows ! 3]).
         ex_patient_id r = ''P'' \<and> target_year r = 2019)
   \<and> \<not> (\<exists>r \<in> set ([] @ [scenario_rows ! 0, scenario_rows ! 2]
                     @ [scenario_rows ! 1, scenario_rows ! 3]).
         ex_patient_id r = ''P'' \<and> target_year r = 2018)
   \<and> hist_years (scenario_rows ! 0) = [2017, 2018]"
proof -
  let ?out = "[] @ [scenario_rows ! 0, scenario_rows ! 2] @ [scenario_rows ! 1, scenario_rows ! 3]"
  have run: "build_yearly_sequences scenario_globals scenario_to_year scenario_events
       scenario_vocab 2 2017 2020
     = Inr ([], [scenario_rows ! 0, scenario_rows ! 2], [scenario_rows ! 1, scenario_rows ! 3])"
    unfolding scenario_to_year_def scenario_events_def scenario_vocab_def scenario_rows_def
      scenario_globals_def
    by code_simp
  note w = window_check_and_contiguity [OF run]
  have c19: "(\<exists>e \<in> set scenario_events. patient_id e = ''P''
               \<and> scenario_to_year (visit_date e) = Some 2019) \<and> (2017::int) \<le> 2019 \<and> (2019::int) \<le> 2020"
    by (simp add: scenario_events_def scenario_to_year_def)
  have c18: "(\<exists>e \<in> set scenario_events. patient_id e = ''P''
               \<and> scenario_to_year (visit_date e) = Some 2018) \<and> (2017::int) \<le> 2018 \<and> (2018::int) \<le> 2020"
    by (simp add: scenario_events_def scenario_to_year_def)
  from w c19 have "(\<exists>r \<in> set ?out. ex_patient_id r = ''P'' \<and> target_year r = 2019)
      \<longleftrightarrow> (2019::int) - 2 \<ge> 2017"
    by blast
  then have e19: "\<exists>r \<in> set ?out. ex_patient_id r = ''P'' \<and> target_year r = 2019"
    by simp
  from w c18 have "(\<exists>r \<in> set ?out. ex_patient_id r = ''P'' \<and> target_year r = 2018)
      \<longleftrightarrow> (2018::int) - 2 \<ge> 2017"
    by blast
  then have e18: "\<not> (\<exists>r \<in> set ?out. ex_patient_id r = ''P'' \<and> target_year r = 2018)"
    by simp
  have "scenario_rows ! 0 \<in> set ?out" by simp
  with w have "hist_years (scenario_rows ! 0)
      = [target_year (scenario_rows ! 0) - 2..target_year (scenario_rows ! 0) - 1]"
    by blast
  moreover have "target_year (scenario_rows ! 0) = 2019"
    by (simp add: scenario_rows_def)
  moreover have "[(2019::int) - 2..2019 - 1] = [2017, 2018]"
    by code_simp
  ultimately have h: "hist_years (scenario_rows ! 0) = [2017, 2018]"
    by simp
  from run e19 e18 h show ?thesis by blast
qed

subsection \<open>The temporal split\<close>

lemma mset_three_filters:
  assumes "\<forall>x \<in> set xs. (P x \<and> \<not> Q x \<and> \<not> R x) \<or> (\<not> P x \<and> Q x \<and> \<not> R x) \<or> (\<not> P x \<and> \<not> Q x \<and> R x)"
  shows "mset (filter P xs) + mset (filter Q xs) + mset (filter R xs) = mset xs"
  using assms by (induction xs) auto

text \<open>
  C2. With \<open>train_until < val_until\<close> (both bound) and at least one emitted example, the
  builder returns three sets, and every emitted example is in exactly one of them: in
  train if and only if its \<open>target_year\<close> is at most \<open>train_until\<close>, in validation if
  and only if it is above \<open>train_until\<close> and at most \<open>val_until\<close>, in test if and only if
  it is above \<open>val_until\<close>; the three sets together hold each emitted example as often
  as it was emitted, so none is lost and none is duplicated.
\<close>

theorem temporal_split_partition:
  assumes "train_until G = Some tu" and "val_until G = Some vu" and "tu < vu"
    and "build_rows to_year df_events label_to_id H min_year max_year = Inr rows"
    and "rows \<noteq> []"
  shows "\<exists>train val test.
     build_yearly_sequences G to_year df_events label_to_id H min_year max_year
       = Inr (train, val, test)
     \<and> (\<forall>r \<in> set rows.
           (r \<in> set train \<longleftrightarrow> target_year r \<le> tu)
         \<and> (r \<in> set val \<longleftrightarrow> tu < target_year r \<and> target_year r \<le> vu)
         \<and> (r \<in> set test \<longleftrightarrow> target_year r > vu)
         \<and> ((r \<in> set train \<and> r \<notin> set val \<and> r \<notin> set test)
            \<or> (r \<notin> set train \<and> r \<in> set val \<and> r \<notin> set test)
            \<or> (r \<notin> set train \<and> r \<notin> set val \<and> r \<in> set test)))
     \<and> mset train + mset val + mset test = mset rows"
proof -
  let ?train = "filter (\<lambda>r. target_year r \<le> tu) rows"
  let ?val = "filter (\<lambda>r. target_year r > tu \<and> target_year r \<le> vu) rows"
  let ?test = "filter (\<lambda>r. target_year r > vu) rows"
  have run: "build_yearly_sequences G to_year df_events label_to_id H min_year max_year
       = Inr (?train, ?val, ?test)"
    using assms(1,2,4,5) by (simp add: build_yearly_sequences_def)
  have one: "\<forall>r \<in> set rows.
       (target_year r \<le> tu \<and> \<not> (target_year r > tu \<and> target_year r \<le> vu) \<and> \<not> target_year r > vu)
     \<or> (\<not> target_year r \<le> tu \<and> (target_year r > tu \<and> target_year r \<le> vu) \<and> \<not> target_year r > vu)
     \<or> (\<not> target_year r \<le> tu \<and> \<not> (target_year r > tu \<and> target_year r \<le> vu) \<and> target_year r > vu)"
    using assms(3) by auto
  have part: "mset ?train + mset ?val + mset ?test = mset rows"
    by (rule mset_three_filters [OF one])
  have mem: "\<forall>r \<in> set rows.
           (r \<in> set ?train \<longleftrightarrow> target_year r \<le> tu)
         \<and> (r \<in> set ?val \<longleftrightarrow> tu < target_year r \<and> target_year r \<le> vu)
         \<and> (r \<in> set ?test \<longleftrightarrow> target_year r > vu)
         \<and> ((r \<in> set ?train \<and> r \<notin> set ?val \<and> r \<notin> set ?test)
            \<or> (r \<notin> set ?train \<and> r \<in> set ?val \<and> r \<notin> set ?test)
            \<or> (r \<notin> set ?train \<and> r \<notin> set ?val \<and> r \<in> set ?test))"
    using assms(3) by auto
  from run mem part show ?thesis by blast
qed

text \<open>
  Scenario D of the specification: with the cutoffs 2018 and 2019 the example with
  target year 2019 is in validation and the one with target year 2020 in test.
\<close>

theorem temporal_split_partition_witness:
  "\<exists>train val test.
     build_yearly_sequences scenario_globals scenario_to_year scenario_events scenario_vocab
       2 2017 2020 = Inr (train, val, test)
     \<and> scenario_rows ! 0 \<in> set val \<and> scenario_rows ! 0 \<notin> set train
     \<and> scenario_rows ! 1 \<in> set test \<and> scenario_rows ! 1 \<notin> set val
     \<and> mset train + mset val + mset test = mset scenario_rows"
proof -
  have rows: "build_rows scenario_to_year scenario_events scenario_vocab 2 2017 2020
      = Inr scenario_rows"
    unfolding scenario_to_year_def scenario_events_def scenario_vocab_def scenario_rows_def
    by code_simp
  have g: "train_until scenario_globals = Some 2018" "val_until scenario_globals = Some 2019"
    by (simp_all add: scenario_globals_def)
  have ne: "scenario_rows \<noteq> []" by (simp add: scenario_rows_def)
  have lt: "(2018::int) < 2019" by simp
  have m: "scenario_rows ! 0 \<in> set scenario_rows" "scenario_rows ! 1 \<in> set scenario_rows"
    "target_year (scenario_rows ! 0) = 2019" "target_year (scenario_rows ! 1) = 2020"
    by (simp_all add: scenario_rows_def)
  from temporal_split_partition [OF g lt rows ne] obtain train val test where
    "build_yearly_sequences scenario_globals scenario_to_year scenario_events scenario_vocab
       2 2017 2020 = Inr (train, val, test)"
    "\<forall>r \<in> set scenario_rows.
           (r \<in> set train \<longleftrightarrow> target_year r \<le> 2018)
         \<and> (r \<in> set val \<longleftrightarrow> 2018 < target_year r \<and> target_year r \<le> 2019)
         \<and> (r \<in> set test \<longleftrightarrow> target_year r > 2019)"
    "mset train + mset val + mset test = mset scenario_rows"
    by blast
  with m show ?thesis by force
qed

subsection \<open>The target vector\<close>

text \<open>
  C3. In a run that returns, with a vocabulary whose indices are not negative, the
  \<open>target_multi_hot\<close> of every emitted example has length \<open>K = len(label_to_id)\<close>, holds
  only 0 and 1, and the set of its indices that hold 1 is exactly the set of vocabulary
  indices of the codes the patient had in the target year that are in the vocabulary. A
  candidate patient and year with enough history and no code of the vocabulary in the
  target year is not dropped: its example is emitted, with the all-zero vector.
\<close>

theorem target_multi_hot_correct:
  assumes "build_yearly_sequences G to_year df_events label_to_id H min_year max_year
             = Inr (train, val, test)"
    and "\<forall>c i. dict_get label_to_id c = Some i \<longrightarrow> 0 \<le> i"
  shows "(\<forall>r \<in> set (train @ val @ test).
           length (target_multi_hot r) = dict_len label_to_id
         \<and> set (target_multi_hot r) \<subseteq> {0, 1}
         \<and> {i. 0 \<le> i \<and> i < int (dict_len label_to_id) \<and> target_multi_hot r ! nat i = 1}
             = {i. \<exists>c. dict_get label_to_id c = Some i
                    \<and> (\<exists>e \<in> set df_events. patient_id e = ex_patient_id r
                          \<and> to_year (visit_date e) = Some (target_year r)
                          \<and> code_norm e = Some c)})
     \<and> (\<forall>p Y. (\<exists>e \<in> set df_events. patient_id e = p \<and> to_year (visit_date e) = Some Y)
              \<and> min_year \<le> Y \<and> Y \<le> max_year \<and> min_year \<le> Y - H
              \<and> \<not> (\<exists>e \<in> set df_events. \<exists>c. patient_id e = p
                       \<and> to_year (visit_date e) = Some Y \<and> code_norm e = Some c
                       \<and> c \<in> set (dict_keys label_to_id))
          \<longrightarrow> (\<exists>r \<in> set (train @ val @ test). ex_patient_id r = p \<and> target_year r = Y
                 \<and> target_multi_hot r = replicate (dict_len label_to_id) 0))"
proof -
  let ?K = "dict_len label_to_id"
  from build_yearly_sequences_Inr [OF assms(1)] obtain rows where
    rows: "build_rows to_year df_events label_to_id H min_year max_year = Inr rows"
    and out: "set (train @ val @ test) = set rows"
    by blast
  have keys: "c \<in> set (dict_keys label_to_id)" if "dict_get label_to_id c = Some i" for c i
    using that by (auto simp: dict_get_def dict_keys_def dest: map_of_SomeD intro: rev_image_eqI)
  have wrap: "wrap_index ?K i = i" if "dict_get label_to_id c = Some i" for c i
  proof -
    from assms(2) that have "0 \<le> i" by blast
    then show ?thesis by (simp add: wrap_index_def)
  qed
  have ex: "length (target_multi_hot r) = ?K
         \<and> set (target_multi_hot r) \<subseteq> {0, 1}
         \<and> {i. 0 \<le> i \<and> i < int ?K \<and> target_multi_hot r ! nat i = 1}
             = {i. \<exists>c. dict_get label_to_id c = Some i
                    \<and> (\<exists>e \<in> set df_events. patient_id e = ex_patient_id r
                          \<and> to_year (visit_date e) = Some (target_year r)
                          \<and> code_norm e = Some c)}" if "r \<in> set rows" for r
  proof -
    let ?had = "\<lambda>c. \<exists>e \<in> set df_events. patient_id e = ex_patient_id r
                          \<and> to_year (visit_date e) = Some (target_year r)
                          \<and> code_norm e = Some c"
    from build_rows_example [OF rows that] have
      len: "length (target_multi_hot r) = ?K" and
      nth: "\<forall>j < ?K. target_multi_hot r ! j =
           (if \<exists>c i. ?had c \<and> dict_get label_to_id c = Some i \<and> wrap_index ?K i = int j
            then 1 else 0)" and
      rng: "\<forall>c i. ?had c \<and> dict_get label_to_id c = Some i \<longrightarrow> - int ?K \<le> i \<and> i < int ?K"
      by blast+
    have bits: "set (target_multi_hot r) \<subseteq> {0, 1}"
    proof
      fix x assume "x \<in> set (target_multi_hot r)"
      then obtain j where "j < ?K" "x = target_multi_hot r ! j"
        by (auto simp: in_set_conv_nth len)
      with nth show "x \<in> {0, 1}" by auto
    qed
    have one: "target_multi_hot r ! nat i = 1 \<longleftrightarrow>
        (\<exists>c. dict_get label_to_id c = Some i \<and> ?had c)" if "0 \<le> i" "i < int ?K" for i
    proof -
      from that have "nat i < ?K" by simp
      with nth have "target_multi_hot r ! nat i = 1 \<longleftrightarrow>
          (\<exists>c i'. ?had c \<and> dict_get label_to_id c = Some i' \<and> wrap_index ?K i' = int (nat i))"
        by simp
      also have "\<dots> \<longleftrightarrow> (\<exists>c. dict_get label_to_id c = Some i \<and> ?had c)"
        using wrap that(1) by auto
      finally show ?thesis .
    qed
    have "{i. 0 \<le> i \<and> i < int ?K \<and> target_multi_hot r ! nat i = 1}
             = {i. \<exists>c. dict_get label_to_id c = Some i \<and> ?had c}"
    proof (rule set_eqI, rule iffI)
      fix i assume "i \<in> {i. 0 \<le> i \<and> i < int ?K \<and> target_multi_hot r ! nat i = 1}"
      with one show "i \<in> {i. \<exists>c. dict_get label_to_id c = Some i \<and> ?had c}" by blast
    next
      fix i assume "i \<in> {i. \<exists>c. dict_get label_to_id c = Some i \<and> ?had c}"
      then obtain c where c: "dict_get label_to_id c = Some i" "?had c" by blast
      with rng assms(2) have "0 \<le> i" "i < int ?K" by blast+
      with one c show "i \<in> {i. 0 \<le> i \<and> i < int ?K \<and> target_multi_hot r ! nat i = 1}"
        by blast
    qed
    with len bits show ?thesis by blast
  qed
  have zero: "\<exists>r \<in> set rows. ex_patient_id r = p \<and> target_year r = Y
                 \<and> target_multi_hot r = replicate ?K 0"
    if c: "\<exists>e \<in> set df_events. patient_id e = p \<and> to_year (visit_date e) = Some Y"
      "min_year \<le> Y" "Y \<le> max_year" "min_year \<le> Y - H"
    and none: "\<not> (\<exists>e \<in> set df_events. \<exists>c. patient_id e = p
                       \<and> to_year (visit_date e) = Some Y \<and> code_norm e = Some c
                       \<and> c \<in> set (dict_keys label_to_id))" for p Y
  proof -
    from build_rows_emits [OF rows c] obtain r where
      r: "r \<in> set rows" "ex_patient_id r = p" "target_year r = Y" by blast
    from build_rows_example [OF rows r(1)] have
      len: "length (target_multi_hot r) = ?K" and
      nth: "\<forall>j < ?K. target_multi_hot r ! j =
           (if \<exists>c i. (\<exists>e \<in> set df_events. patient_id e = p
                          \<and> to_year (visit_date e) = Some Y \<and> code_norm e = Some c)
                 \<and> dict_get label_to_id c = Some i \<and> wrap_index ?K i = int j
            then 1 else 0)"
      unfolding r(2,3) by blast+
    have no: "\<not> (\<exists>c i. (\<exists>e \<in> set df_events. patient_id e = p
                          \<and> to_year (visit_date e) = Some Y \<and> code_norm e = Some c)
                 \<and> dict_get label_to_id c = Some i \<and> wrap_index ?K i = int j)" for j
      using none keys by blast
    have "\<forall>j < ?K. target_multi_hot r ! j = 0"
    proof (intro allI impI)
      fix j assume "j < ?K"
      with nth have "target_multi_hot r ! j =
           (if \<exists>c i. (\<exists>e \<in> set df_events. patient_id e = p
                          \<and> to_year (visit_date e) = Some Y \<and> code_norm e = Some c)
                 \<and> dict_get label_to_id c = Some i \<and> wrap_index ?K i = int j
            then 1 else 0)"
        by blast
      then show "target_multi_hot r ! j = 0" by (simp only: no if_False)
    qed
    with len have "target_multi_hot r = replicate ?K 0"
      by (simp add: list_eq_iff_nth_eq)
    with r show ?thesis by blast
  qed
  from ex zero show ?thesis unfolding out by blast
qed

text \<open>
  Scenario B of the specification: the example of patient P for 2020 has index(Z) set
  and nothing else; the example of P for 2019, a year with the code Y alone, which is
  outside the vocabulary, is emitted with the all-zero vector.
\<close>

theorem target_multi_hot_correct_witness:
  "build_yearly_sequences scenario_globals scenario_to_year scenario_events scenario_vocab
       2 2017 2020
     = Inr ([], [scenario_rows ! 0, scenario_rows ! 2], [scenario_rows ! 1, scenario_rows ! 3])
   \<and> length (target_multi_hot (scenario_rows ! 1)) = dict_len scenario_vocab
   \<and> {i. 0 \<le> i \<and> i < int (dict_len scenario_vocab)
          \<and> target_multi_hot (scenario_rows ! 1) ! nat i = 1}
       = {i. \<exists>c. dict_get scenario_vocab c = Some i
              \<and> (\<exists>e \<in> set scenario_events. patient_id e = ''P''
                    \<and> scenario_to_year (visit_date e) = Some 2020 \<and> code_norm e = Some c)}
   \<and> (\<exists>r \<in> set ([] @ [scenario_rows ! 0, scenario_rows ! 2]
                     @ [scenario_rows ! 1, scenario_rows ! 3]).
         ex_patient_id r = ''P'' \<and> target_year r = 2019
         \<and> target_multi_hot r = replicate (dict_len scenario_vocab) 0)"
proof -
  let ?r = "scenario_rows ! 1"
  let ?out = "[] @ [scenario_rows ! 0, scenario_rows ! 2] @ [scenario_rows ! 1, scenario_rows ! 3]"
  have run: "build_yearly_sequences scenario_globals scenario_to_year scenario_events
       scenario_vocab 2 2017 2020
     = Inr ([], [scenario_rows ! 0, scenario_rows ! 2], [scenario_rows ! 1, scenario_rows ! 3])"
    unfolding scenario_to_year_def scenario_events_def scenario_vocab_def scenario_rows_def
      scenario_globals_def
    by code_simp
  have nn: "\<forall>c i. dict_get scenario_vocab c = Some i \<longrightarrow> 0 \<le> i"
    by (simp add: dict_get_def scenario_vocab_def)
  note w = target_multi_hot_correct [OF run nn]
  have r: "?r \<in> set ?out" by simp
  have f: "ex_patient_id ?r = ''P''" "target_year ?r = 2020"
    by (simp_all add: scenario_rows_def)
  from w r have a: "length (target_multi_hot ?r) = dict_len scenario_vocab
     \<and> {i. 0 \<le> i \<and> i < int (dict_len scenario_vocab) \<and> target_multi_hot ?r ! nat i = 1}
       = {i. \<exists>c. dict_get scenario_vocab c = Some i
              \<and> (\<exists>e \<in> set scenario_events. patient_id e = ex_patient_id ?r
                    \<and> scenario_to_year (visit_date e) = Some (target_year ?r)
                    \<and> code_norm e = Some c)}"
    by blast
  have c: "(\<exists>e \<in> set scenario_events. patient_id e = ''P''
               \<and> scenario_to_year (visit_date e) = Some 2019)
       \<and> (2017::int) \<le> 2019 \<and> (2019::int) \<le> 2020 \<and> (2017::int) \<le> 2019 - 2
       \<and> \<not> (\<exists>e \<in> set scenario_events. \<exists>c. patient_id e = ''P''
                       \<and> scenario_to_year (visit_date e) = Some 2019 \<and> code_norm e = Some c
                       \<and> c \<in> set (dict_keys scenario_vocab))"
    by (simp add: scenario_events_def scenario_to_year_def scenario_vocab_def dict_keys_def)
  from w c have z: "\<exists>r \<in> set ?out. ex_patient_id r = ''P'' \<and> target_year r = 2019
         \<and> target_multi_hot r = replicate (dict_len scenario_vocab) 0"
    by blast
  from run a z show ?thesis unfolding f by blast
qed

subsection \<open>The history codes\<close>

lemma dropna_append: "dropna (xs @ ys) = dropna xs @ dropna ys"
  by (induction xs rule: dropna.induct) auto

lemma mset_dropna:
  "mset (dropna xs) = image_mset the (filter_mset (\<lambda>x. x \<noteq> None) (mset xs))"
  by (induction xs rule: dropna.induct) auto

lemma derive_df_Cons:
  "derive_df to_year (e # es) d mn mx =
     (case to_year (visit_date e) of
          None \<Rightarrow> []
        | Some y \<Rightarrow>
            if y \<ge> mn \<and> y \<le> mx then
              [\<lparr>patient_id = patient_id e, visit_date = visit_date e, code_norm = code_norm e,
                year = y, code_in_vocab = isin (code_norm e) d\<rparr>]
            else []) @ derive_df to_year es d mn mx"
  by (simp add: derive_df_def)

lemma derive_df_codes:
  "mn \<le> y \<Longrightarrow> y \<le> mx \<Longrightarrow>
   dropna (map code_norm (filter (\<lambda>r. patient_id r = p \<and> year r = y)
       (derive_df to_year df_events d mn mx)))
   = dropna (map code_norm (filter (\<lambda>e. patient_id e = p \<and> to_year (visit_date e) = Some y)
       df_events))"
proof (induction df_events)
  case Nil
  then show ?case by (simp add: derive_df_def)
next
  case (Cons e es)
  then show ?case
    by (cases "to_year (visit_date e)"; cases "code_norm e")
      (auto simp: derive_df_Cons dropna_append)
qed

lemma group_codes_mset:
  assumes "mn \<le> y" "y \<le> mx"
  shows "mset (dropna (map code_norm
      (filter (\<lambda>r. year r = y) (patient_group (derive_df to_year df_events d mn mx) p))))
   = mset (dropna (map code_norm
      (filter (\<lambda>e. patient_id e = p \<and> to_year (visit_date e) = Some y) df_events)))"
proof -
  let ?df = "derive_df to_year df_events d mn mx"
  have "mset (dropna (map code_norm (filter (\<lambda>r. year r = y) (patient_group ?df p))))
      = mset (dropna (map code_norm (filter (\<lambda>r. patient_id r = p \<and> year r = y) ?df)))"
    by (simp add: mset_dropna patient_group_def conj_commute)
  then show ?thesis
    by (simp only: derive_df_codes [OF assms])
qed

text \<open>
  C6. In a run that returns, for every emitted example of a patient and a target year Y,
  \<open>hist_codes\<close> is aligned with \<open>hist_years\<close>, every year of the window lies from
  \<open>Y - H\<close> to \<open>Y - 1\<close>, and the codes at a position are, with their multiplicities, the
  codes of the patient's events of that year: every history code comes from an event of
  the patient in a year of the window, none from an event in a year \<open>\<ge> Y\<close>.
\<close>

theorem history_codes_from_window_years:
  assumes "build_yearly_sequences G to_year df_events label_to_id H min_year max_year
             = Inr (train, val, test)"
  shows "\<forall>r \<in> set (train @ val @ test).
     length (hist_codes r) = length (hist_years r)
     \<and> (\<forall>j < length (hist_codes r).
           target_year r - H \<le> hist_years r ! j \<and> hist_years r ! j < target_year r
         \<and> mset (hist_codes r ! j)
             = mset (dropna (map code_norm (filter
                 (\<lambda>e. patient_id e = ex_patient_id r
                    \<and> to_year (visit_date e) = Some (hist_years r ! j)) df_events)))
         \<and> (\<forall>c \<in> set (hist_codes r ! j). \<exists>e \<in> set df_events.
               patient_id e = ex_patient_id r \<and> code_norm e = Some c
               \<and> to_year (visit_date e) = Some (hist_years r ! j)))"
proof
  fix r assume r: "r \<in> set (train @ val @ test)"
  from build_yearly_sequences_Inr [OF assms] obtain rows where
    rows: "build_rows to_year df_events label_to_id H min_year max_year = Inr rows"
    and out: "set (train @ val @ test) = set rows"
    by blast
  let ?Y = "target_year r" and ?p = "ex_patient_id r"
  let ?g = "patient_group (derive_df to_year df_events label_to_id min_year max_year) ?p"
  from r have "r \<in> set rows" unfolding out .
  from build_rows_example [OF rows this] have
    Y: "?Y \<le> max_year" "min_year \<le> ?Y - H" and
    hy: "hist_years r = [?Y - H..?Y - 1]" and
    hc: "hist_codes r = map (\<lambda>y. dropna (map code_norm (filter (\<lambda>r. year r = y) ?g)))
           [?Y - H..?Y - 1]"
    by simp_all
  have len: "length (hist_codes r) = length (hist_years r)"
    by (simp add: hy hc)
  have slot: "target_year r - H \<le> hist_years r ! j \<and> hist_years r ! j < target_year r
         \<and> mset (hist_codes r ! j)
             = mset (dropna (map code_norm (filter
                 (\<lambda>e. patient_id e = ?p \<and> to_year (visit_date e) = Some (hist_years r ! j))
                 df_events)))
         \<and> (\<forall>c \<in> set (hist_codes r ! j). \<exists>e \<in> set df_events.
               patient_id e = ?p \<and> code_norm e = Some c
               \<and> to_year (visit_date e) = Some (hist_years r ! j))"
    if j: "j < length (hist_codes r)" for j
  proof -
    define y where "y = hist_years r ! j"
    from j len have jl: "j < length [?Y - H..?Y - 1]" by (simp add: hy)
    then have "y \<in> set [?Y - H..?Y - 1]" unfolding y_def hy by (rule nth_mem)
    then have yb: "?Y - H \<le> y" "y < ?Y" by simp_all
    with Y have yr: "min_year \<le> y" "y \<le> max_year" by simp_all
    have cj: "hist_codes r ! j = dropna (map code_norm (filter (\<lambda>r. year r = y) ?g))"
      using jl by (simp add: hc y_def hy)
    have ms: "mset (hist_codes r ! j)
             = mset (dropna (map code_norm (filter
                 (\<lambda>e. patient_id e = ?p \<and> to_year (visit_date e) = Some y) df_events)))"
      unfolding cj by (rule group_codes_mset [OF yr])
    have "\<exists>e \<in> set df_events. patient_id e = ?p \<and> code_norm e = Some c
               \<and> to_year (visit_date e) = Some y" if "c \<in> set (hist_codes r ! j)" for c
      using that unfolding cj group_codes by blast
    with yb ms show ?thesis unfolding y_def by blast
  qed
  from len slot show "length (hist_codes r) = length (hist_years r)
     \<and> (\<forall>j < length (hist_codes r).
           target_year r - H \<le> hist_years r ! j \<and> hist_years r ! j < target_year r
         \<and> mset (hist_codes r ! j)
             = mset (dropna (map code_norm (filter
                 (\<lambda>e. patient_id e = ex_patient_id r
                    \<and> to_year (visit_date e) = Some (hist_years r ! j)) df_events)))
         \<and> (\<forall>c \<in> set (hist_codes r ! j). \<exists>e \<in> set df_events.
               patient_id e = ex_patient_id r \<and> code_norm e = Some c
               \<and> to_year (visit_date e) = Some (hist_years r ! j)))"
    by blast
qed

text \<open>
  Scenario B of the specification: the first history list of the example of patient P
  for 2020 holds X, from the event of P in 2018.
\<close>

theorem history_codes_from_window_years_witness:
  "build_yearly_sequences scenario_globals scenario_to_year scenario_events scenario_vocab
       2 2017 2020
     = Inr ([], [scenario_rows ! 0, scenario_rows ! 2], [scenario_rows ! 1, scenario_rows ! 3])
   \<and> hist_codes (scenario_rows ! 1) = [[''X''], [''Y'']]
   \<and> (\<exists>e \<in> set scenario_events. patient_id e = ''P'' \<and> code_norm e = Some ''X''
         \<and> scenario_to_year (visit_date e) = Some 2018)
   \<and> (2020::int) - 2 \<le> 2018 \<and> (2018::int) < 2020"
proof -
  let ?r = "scenario_rows ! 1"
  have run: "build_yearly_sequences scenario_globals scenario_to_year scenario_events
       scenario_vocab 2 2017 2020
     = Inr ([], [scenario_rows ! 0, scenario_rows ! 2], [scenario_rows ! 1, scenario_rows ! 3])"
    unfolding scenario_to_year_def scenario_events_def scenario_vocab_def scenario_rows_def
      scenario_globals_def
    by code_simp
  have r: "?r \<in> set ([] @ [scenario_rows ! 0, scenario_rows ! 2]
                     @ [scenario_rows ! 1, scenario_rows ! 3])"
    by simp
  have f: "ex_patient_id ?r = ''P''" "hist_years ?r ! 0 = 2018" "target_year ?r = 2020"
    "hist_codes ?r = [[''X''], [''Y'']]"
    by (simp_all add: scenario_rows_def)
  have j: "0 < length (hist_codes ?r)" and m: "''X'' \<in> set (hist_codes ?r ! 0)"
    by (simp_all add: scenario_rows_def)
  from history_codes_from_window_years [OF run, THEN bspec, OF r] j m have
    "target_year ?r - 2 \<le> hist_years ?r ! 0 \<and> hist_years ?r ! 0 < target_year ?r
     \<and> (\<exists>e \<in> set scenario_events. patient_id e = ex_patient_id ?r \<and> code_norm e = Some ''X''
           \<and> scenario_to_year (visit_date e) = Some (hist_years ?r ! 0))"
    by blast
  with run f(4) show ?thesis unfolding f(1-3) by blast
qed

text \<open>
  C8. In a run that returns, for every emitted example: every code the patient had in a
  year of the history window, in the vocabulary or not, is in the \<open>hist_codes\<close> list of
  that year; every 1 of \<open>target_multi_hot\<close> stands at the index of a code of the
  vocabulary that the patient had in the target year; and a code outside the vocabulary
  has no index at all. History is not filtered by the vocabulary, targets are.
\<close>

theorem history_unfiltered_targets_filtered:
  assumes "build_yearly_sequences G to_year df_events label_to_id H min_year max_year
             = Inr (train, val, test)"
  shows "\<forall>r \<in> set (train @ val @ test).
     (\<forall>e \<in> set df_events. \<forall>c y. patient_id e = ex_patient_id r \<and> code_norm e = Some c
          \<and> to_year (visit_date e) = Some y \<and> target_year r - H \<le> y \<and> y < target_year r
        \<longrightarrow> nat (y - (target_year r - H)) < length (hist_codes r)
            \<and> c \<in> set (hist_codes r ! nat (y - (target_year r - H))))
     \<and> (\<forall>j < dict_len label_to_id. target_multi_hot r ! j = 1 \<longrightarrow>
          (\<exists>c i. c \<in> set (dict_keys label_to_id) \<and> dict_get label_to_id c = Some i
             \<and> wrap_index (dict_len label_to_id) i = int j
             \<and> (\<exists>e \<in> set df_events. patient_id e = ex_patient_id r
                   \<and> to_year (visit_date e) = Some (target_year r) \<and> code_norm e = Some c)))
     \<and> (\<forall>c. c \<notin> set (dict_keys label_to_id) \<longrightarrow> dict_get label_to_id c = None)"
proof
  fix r assume r: "r \<in> set (train @ val @ test)"
  let ?K = "dict_len label_to_id"
  from build_yearly_sequences_Inr [OF assms] obtain rows where
    rows: "build_rows to_year df_events label_to_id H min_year max_year = Inr rows"
    and out: "set (train @ val @ test) = set rows"
    by blast
  let ?Y = "target_year r" and ?p = "ex_patient_id r"
  let ?g = "patient_group (derive_df to_year df_events label_to_id min_year max_year) ?p"
  from r have "r \<in> set rows" unfolding out .
  note ex = build_rows_example [OF rows this]
  from ex have
    Y: "?Y \<le> max_year" "min_year \<le> ?Y - H" and
    hc: "hist_codes r = map (\<lambda>y. dropna (map code_norm (filter (\<lambda>r. year r = y) ?g)))
           [?Y - H..?Y - 1]"
    by simp_all
  from ex have
    nth: "\<forall>j < ?K. target_multi_hot r ! j =
           (if \<exists>c i. (\<exists>e \<in> set df_events. patient_id e = ?p
                          \<and> to_year (visit_date e) = Some ?Y \<and> code_norm e = Some c)
                 \<and> dict_get label_to_id c = Some i \<and> wrap_index ?K i = int j
            then 1 else 0)"
    by blast
  have keys: "c \<in> set (dict_keys label_to_id)" if "dict_get label_to_id c = Some i" for c i
    using that by (auto simp: dict_get_def dict_keys_def dest: map_of_SomeD intro: rev_image_eqI)
  have hist: "nat (y - (?Y - H)) < length (hist_codes r)
            \<and> c \<in> set (hist_codes r ! nat (y - (?Y - H)))"
    if "e \<in> set df_events" "patient_id e = ?p" "code_norm e = Some c"
      "to_year (visit_date e) = Some y" "?Y - H \<le> y" "y < ?Y" for e c y
  proof -
    let ?j = "nat (y - (?Y - H))"
    have jl: "?j < length [?Y - H..?Y - 1]" using that(5,6) by simp
    have "[?Y - H..?Y - 1] ! ?j = ?Y - H + int ?j"
      using that(5,6) by (intro nth_upto) simp
    then have yj: "[?Y - H..?Y - 1] ! ?j = y" using that(5) by simp
    have cj: "hist_codes r ! ?j = dropna (map code_norm (filter (\<lambda>r. year r = y) ?g))"
      using jl by (simp add: hc yj del: upto.simps)
    have "min_year \<le> y" "y \<le> max_year" using that(5,6) Y by simp_all
    with that(1-4) have "c \<in> set (hist_codes r ! ?j)"
      unfolding cj group_codes by blast
    with jl show ?thesis by (simp add: hc)
  qed
  have targ: "\<exists>c i. c \<in> set (dict_keys label_to_id) \<and> dict_get label_to_id c = Some i
             \<and> wrap_index ?K i = int j
             \<and> (\<exists>e \<in> set df_events. patient_id e = ?p
                   \<and> to_year (visit_date e) = Some ?Y \<and> code_norm e = Some c)"
    if "j < ?K" "target_multi_hot r ! j = 1" for j
  proof -
    from nth that have "\<exists>c i. (\<exists>e \<in> set df_events. patient_id e = ?p
                          \<and> to_year (visit_date e) = Some ?Y \<and> code_norm e = Some c)
                 \<and> dict_get label_to_id c = Some i \<and> wrap_index ?K i = int j"
      by (metis zero_neq_one)
    with keys show ?thesis by blast
  qed
  have none: "dict_get label_to_id c = None" if "c \<notin> set (dict_keys label_to_id)" for c
    using that keys by (cases "dict_get label_to_id c") auto
  from hist targ none show
    "(\<forall>e \<in> set df_events. \<forall>c y. patient_id e = ex_patient_id r \<and> code_norm e = Some c
          \<and> to_year (visit_date e) = Some y \<and> target_year r - H \<le> y \<and> y < target_year r
        \<longrightarrow> nat (y - (target_year r - H)) < length (hist_codes r)
            \<and> c \<in> set (hist_codes r ! nat (y - (target_year r - H))))
     \<and> (\<forall>j < dict_len label_to_id. target_multi_hot r ! j = 1 \<longrightarrow>
          (\<exists>c i. c \<in> set (dict_keys label_to_id) \<and> dict_get label_to_id c = Some i
             \<and> wrap_index (dict_len label_to_id) i = int j
             \<and> (\<exists>e \<in> set df_events. patient_id e = ex_patient_id r
                   \<and> to_year (visit_date e) = Some (target_year r) \<and> code_norm e = Some c)))
     \<and> (\<forall>c. c \<notin> set (dict_keys label_to_id) \<longrightarrow> dict_get label_to_id c = None)"
    by blast
qed

text \<open>
  The code W of patient Q is outside the vocabulary: it is in the history of the
  example of Q for 2020, and the only 1 of that example is the one of Z.
\<close>

theorem history_unfiltered_targets_filtered_witness:
  "build_yearly_sequences scenario_globals scenario_to_year scenario_events scenario_vocab
       2 2017 2020
     = Inr ([], [scenario_rows ! 0, scenario_rows ! 2], [scenario_rows ! 1, scenario_rows ! 3])
   \<and> ''W'' \<notin> set (dict_keys scenario_vocab)
   \<and> dict_get scenario_vocab ''W'' = None
   \<and> ''W'' \<in> set (hist_codes (scenario_rows ! 3) ! nat (2019 - (2020 - 2)))
   \<and> target_multi_hot (scenario_rows ! 3) = [1]"
proof -
  let ?r = "scenario_rows ! 3"
  let ?e = "\<lparr>patient_id = ''Q'', visit_date = ''2019-05-01'', code_norm = Some ''W''\<rparr>"
  have run: "build_yearly_sequences scenario_globals scenario_to_year scenario_events
       scenario_vocab 2 2017 2020
     = Inr ([], [scenario_rows ! 0, scenario_rows ! 2], [scenario_rows ! 1, scenario_rows ! 3])"
    unfolding scenario_to_year_def scenario_events_def scenario_vocab_def scenario_rows_def
      scenario_globals_def
    by code_simp
  have r: "?r \<in> set ([] @ [scenario_rows ! 0, scenario_rows ! 2]
                     @ [scenario_rows ! 1, scenario_rows ! 3])"
    by simp
  note w = history_unfiltered_targets_filtered [OF run, THEN bspec, OF r]
  have e: "?e \<in> set scenario_events"
    by (simp add: scenario_events_def)
  have f: "target_year ?r = 2020" "target_multi_hot ?r = [1]"
    by (simp_all add: scenario_rows_def)
  have p: "patient_id ?e = ex_patient_id ?r \<and> code_norm ?e = Some ''W''
      \<and> scenario_to_year (visit_date ?e) = Some 2019
      \<and> target_year ?r - 2 \<le> 2019 \<and> 2019 < target_year ?r"
    by (simp add: scenario_rows_def scenario_to_year_def)
  have k: "''W'' \<notin> set (dict_keys scenario_vocab)"
    by (simp add: dict_keys_def scenario_vocab_def)
  from w e p have "''W'' \<in> set (hist_codes ?r ! nat (2019 - (target_year ?r - 2)))"
    by blast
  moreover from w k have "dict_get scenario_vocab ''W'' = None"
    by blast
  ultimately show ?thesis
    using run k f(2) unfolding f(1) by blast
qed

subsection \<open>Empty inputs and a non-positive history length\<close>

text \<open>
  C4. The claim is that an empty event table gives three empty example sets and no
  exception. With an empty event table no row is appended, the table built from the
  empty list has no column \<open>target_year\<close>, and the builder raises \<open>KeyError\<close>, whatever
  the vocabulary, the history length, the year bounds and the cutoffs are.
\<close>

theorem build_yearly_sequences_empty_events_raises:
  "build_yearly_sequences G to_year [] label_to_id H min_year max_year = Inl KeyError"
  by (simp add: build_yearly_sequences_def build_rows_def derive_df_def unique_def)

text \<open>
  An empty vocabulary alone raises nothing as long as an example is emitted: the rows
  carry an empty target vector.
\<close>

lemma build_yearly_sequences_empty_vocab_example:
  "build_yearly_sequences scenario_globals scenario_to_year scenario_events [] 2 2017 2020
     = Inr ([],
         [(scenario_rows ! 0)\<lparr>target_multi_hot := []\<rparr>,
          (scenario_rows ! 2)\<lparr>target_multi_hot := []\<rparr>],
         [(scenario_rows ! 1)\<lparr>target_multi_hot := []\<rparr>,
          (scenario_rows ! 3)\<lparr>target_multi_hot := []\<rparr>])"
  unfolding scenario_to_year_def scenario_events_def scenario_rows_def scenario_globals_def
  by code_simp

text \<open>
  C5. The claim is that a history length \<open>H \<le> 0\<close> gives empty outputs or a
  configuration error at the boundary, and no exception while a patient is processed.
  With \<open>H = 0\<close> the window of the first target year of the first patient is empty and
  \<open>min\<close> raises \<open>ValueError\<close> inside the loop.
\<close>

theorem build_yearly_sequences_zero_history_raises:
  "build_yearly_sequences scenario_globals scenario_to_year scenario_events scenario_vocab
     0 2017 2020 = Inl ValueError"
  unfolding scenario_to_year_def scenario_events_def scenario_vocab_def scenario_globals_def
  by code_simp

text \<open>A non-positive history length never returns: every run ends in an exception.\<close>

lemma build_yearly_sequences_nonpositive_history:
  assumes "H \<le> 0"
  shows "\<exists>e. build_yearly_sequences G to_year df_events label_to_id H min_year max_year = Inl e"
proof (cases "build_yearly_sequences G to_year df_events label_to_id H min_year max_year")
  case (Inl e)
  then show ?thesis by blast
next
  case (Inr res)
  obtain train val test where res: "res = (train, val, test)" by (cases res) auto
  from build_yearly_sequences_Inr [OF Inr [unfolded res]] obtain rows where
    rows: "build_rows to_year df_events label_to_id H min_year max_year = Inr rows" "rows \<noteq> []"
    by blast
  then obtain r where "r \<in> set rows" by (cases rows) auto
  from build_rows_example [OF rows(1) this] have "1 \<le> H" by simp
  with assms show ?thesis by simp
qed

section \<open>Properties of the normalizers\<close>

lemma in_AZ09dot_not_space: "in_AZ09dot c \<Longrightarrow> \<not> isspace c"
  by (auto simp: in_AZ09dot_def isspace_def Let_def)

lemma in_AZ09dot_upper_char: "in_AZ09dot c \<Longrightarrow> upper_char c = [c]"
  by (auto simp: in_AZ09dot_def upper_char_def Let_def)

lemma dropWhile_none: "\<forall>c \<in> set s. \<not> P c \<Longrightarrow> dropWhile P s = s"
  by (cases s) auto

lemma strip_no_space:
  assumes "\<forall>c \<in> set s. \<not> isspace c"
  shows "strip s = s"
proof -
  have a: "dropWhile isspace s = s"
    using assms by (rule dropWhile_none)
  have b: "dropWhile isspace (rev s) = rev s"
    using assms by (intro dropWhile_none) simp
  show ?thesis by (simp add: strip_def a b)
qed

lemma upper_fixed:
  "\<forall>c \<in> set s. in_AZ09dot c \<Longrightarrow> upper s = s"
  by (induction s) (auto simp: upper_def in_AZ09dot_upper_char)

lemma upper_char_no_lower:
  "x \<in> set (upper_char c) \<Longrightarrow> \<not> (97 \<le> (of_char x :: nat) \<and> (of_char x :: nat) \<le> 122)"
  by (auto simp: upper_char_def Let_def split: if_splits)

lemma upper_no_lower:
  "x \<in> set (upper s) \<Longrightarrow> \<not> (97 \<le> (of_char x :: nat) \<and> (of_char x :: nat) \<le> 122)"
  using upper_char_no_lower by (auto simp: upper_def)

lemma classes_agree_after_upper:
  "x \<in> set (upper s) \<Longrightarrow> in_AZaz09dot x = in_AZ09dot x"
  using upper_no_lower [of x s] by (auto simp: in_AZaz09dot_def in_AZ09dot_def Let_def)

lemma in_AZ09dot_not_blank: "in_AZ09dot c \<Longrightarrow> c \<noteq> CHR '' ''"
  by (auto simp: in_AZ09dot_def Let_def)

lemma normalize_icd_chars:
  "c \<in> set (normalize_icd x sys d) \<Longrightarrow> in_AZ09dot c \<and> (d \<longrightarrow> c \<noteq> CHR ''.'')"
  by (cases x) (auto simp: normalize_icd_def remove_char_def Let_def split: if_splits)

lemma normalize_icd_fixed:
  assumes "\<forall>c \<in> set s. in_AZ09dot c \<and> (d \<longrightarrow> c \<noteq> CHR ''.'')"
  shows "normalize_icd (PyStr s) sys d = s"
proof -
  have ns: "\<forall>c \<in> set s. \<not> isspace c"
    using assms in_AZ09dot_not_space by blast
  have st: "strip s = s" by (rule strip_no_space [OF ns])
  have up: "upper s = s" using assms by (intro upper_fixed) blast
  have bl: "remove_char CHR '' '' s = s"
    unfolding remove_char_def using assms in_AZ09dot_not_blank by (intro filter_True) blast
  have fl: "filter in_AZ09dot s = s"
    using assms by (intro filter_True) blast
  have dt: "d \<Longrightarrow> remove_char CHR ''.'' s = s"
    unfolding remove_char_def using assms by (intro filter_True) blast
  show ?thesis
    by (simp add: normalize_icd_def st up bl fl dt)
qed

text \<open>
  C9. The code normalizer is idempotent: for every input (a string, or a value that is
  not a string and normalizes to the empty string), every system and every dotless flag,
  normalizing the normalized code returns it unchanged.
\<close>

theorem normalize_icd_idempotent:
  "normalize_icd (PyStr (normalize_icd x sys d)) sys d = normalize_icd x sys d
     \<and> normalize_icd PyNone sys d = [] \<and> normalize_icd (PyInt i) sys d = []
     \<and> normalize_icd PyNaN sys d = []"
proof -
  have "\<forall>c \<in> set (normalize_icd x sys d). in_AZ09dot c \<and> (d \<longrightarrow> c \<noteq> CHR ''.'')"
    using normalize_icd_chars by blast
  then have "normalize_icd (PyStr (normalize_icd x sys d)) sys d = normalize_icd x sys d"
    by (rule normalize_icd_fixed)
  then show ?thesis
    by (simp add: normalize_icd_def)
qed

text \<open>
  C10. The two normalization implementations compute the same function: for every
  input and every flag, \<open>normalize_icd\<close> of the process module and \<open>norm_code\<close> of the
  conversion script return the same string (the empty string for a non-string input).
\<close>

theorem normalize_icd_eq_norm_code:
  "normalize_icd x sys b = norm_code x b"
proof (cases x)
  case (PyStr s)
  have "filter in_AZ09dot (remove_char CHR '' '' (upper (strip s)))
        = filter in_AZ09dot (upper (strip s))"
    unfolding remove_char_def filter_filter
    by (rule filter_cong) (auto dest: in_AZ09dot_not_blank)
  also have "\<dots> = filter in_AZaz09dot (upper (strip s))"
    by (rule filter_cong) (auto simp: classes_agree_after_upper)
  finally show ?thesis
    by (simp add: PyStr normalize_icd_def norm_code_def Let_def)
qed (simp_all add: normalize_icd_def norm_code_def)

end
